theory Spec2Isabelle
  imports Complex_Main "HOL-Library.Sublist" "HOL-Library.AList"
begin

section \<open>Python values and exceptions\<close>

text \<open>
  The stages of the pipeline exchange Python objects: the shared context is a dictionary,
  and the reasoning service's answer is whatever \<^verbatim>\<open>yaml.safe_load\<close> builds from the fenced
  block. The objects are modelled by one datatype. A dictionary is an association list
  (Python dictionaries keep insertion order); a tuple is modelled as a list.
  A float is either a finite value, kept exactly as a rational, or one of the three
  special values; Python compares an \<^verbatim>\<open>int\<close> with a \<^verbatim>\<open>float\<close> exactly.
  \<open>PObj\<close> stands for any other object (a timestamp, say): it is no number and no
  container, and it is true in a condition.
\<close>

datatype pyfloat = Finite rat | PosInf | NegInf | NaN

datatype pyval =
    PNone
  | PBool bool
  | PInt int
  | PFloat pyfloat
  | PStr string
  | PList "pyval list"
  | PDict "(pyval \<times> pyval) list"
  | PObj string

datatype py_error =
    ValueError string
  | TypeError
  | KeyError string
  | AttributeError
  | SyntaxError
  | RecursionError
  | MemoryError

text \<open>\<^verbatim>\<open>isinstance(v, int)\<close>: \<^verbatim>\<open>bool\<close> is a subclass of \<^verbatim>\<open>int\<close> in Python.\<close>

fun isinstance_int :: "pyval \<Rightarrow> bool" where
  "isinstance_int (PInt i) = True"
| "isinstance_int (PBool b) = True"
| "isinstance_int v = False"

text \<open>The integer an \<^verbatim>\<open>int\<close> instance stands for (\<^verbatim>\<open>True\<close> is 1, \<^verbatim>\<open>False\<close> is 0).\<close>

fun int_value :: "pyval \<Rightarrow> int" where
  "int_value (PInt i) = i"
| "int_value (PBool b) = (if b then 1 else 0)"
| "int_value v = 0"

text \<open>
  The chained comparison \<^verbatim>\<open>0 <= idx < n\<close>. It evaluates \<^verbatim>\<open>0 <= idx\<close> first, which raises
  \<^verbatim>\<open>TypeError\<close> when \<^verbatim>\<open>idx\<close> is not a number; every comparison with NaN is false.
\<close>

fun chained_range :: "pyval \<Rightarrow> nat \<Rightarrow> py_error + bool" where
  "chained_range (PInt i) n = Inr (0 \<le> i \<and> i < int n)"
| "chained_range (PBool b) n = Inr ((if b then 1 else 0) < int n)"
| "chained_range (PFloat (Finite q)) n = Inr (0 \<le> q \<and> q < of_nat n)"
| "chained_range (PFloat PosInf) n = Inr False"
| "chained_range (PFloat NegInf) n = Inr False"
| "chained_range (PFloat NaN) n = Inr False"
| "chained_range v n = Inl TypeError"

text \<open>\<^verbatim>\<open>for x in v\<close>: a list yields its elements, a string its characters, a dictionary its
  keys; the other values are not iterable.\<close>

fun py_iter :: "pyval \<Rightarrow> py_error + pyval list" where
  "py_iter (PList xs) = Inr xs"
| "py_iter (PStr s) = Inr (map (\<lambda>c. PStr [c]) s)"
| "py_iter (PDict kvs) = Inr (map fst kvs)"
| "py_iter v = Inl TypeError"

text \<open>\<^verbatim>\<open>key in d\<close> and \<^verbatim>\<open>d[key]\<close> for a string key.\<close>

definition dict_get :: "(pyval \<times> pyval) list \<Rightarrow> string \<Rightarrow> pyval option" where
  "dict_get kvs k = map_of kvs (PStr k)"

section \<open>The ordering stage: \<^verbatim>\<open>OrderChapters.exec\<close>\<close>

text \<open>
  \<^verbatim>\<open>nodes/relationships.py\<close>, lines 138 to 156. The function starts from the value
  \<^verbatim>\<open>result\<close> that \<^verbatim>\<open>yaml.safe_load\<close> returned; \<open>n\<close> is \<^verbatim>\<open>len(abstractions)\<close>.
  The loop keeps the entries that are \<^verbatim>\<open>int\<close> instances within range, in their order.
\<close>

definition valid_index :: "nat \<Rightarrow> pyval \<Rightarrow> bool" where
  "valid_index n idx = (isinstance_int idx \<and> 0 \<le> int_value idx \<and> int_value idx < int n)"

definition py_range :: "nat \<Rightarrow> pyval list" where
  "py_range n = map (\<lambda>i. PInt (int i)) [0..<n]"

definition order_validate :: "nat \<Rightarrow> pyval list \<Rightarrow> pyval list" where
  "order_validate n chapter_order =
     (let valid_order = filter (valid_index n) chapter_order
      in if valid_order = [] then py_range n else valid_order)"

definition OrderChapters_exec :: "nat \<Rightarrow> pyval \<Rightarrow> py_error + pyval list" where
  "OrderChapters_exec n result =
     (case result of
        PDict kvs \<Rightarrow>
          (case dict_get kvs ''chapter_order'' of
             None \<Rightarrow> Inl (ValueError ''Invalid response format - missing chapter_order'')
           | Some (PList chapter_order) \<Rightarrow> Inr (order_validate n chapter_order)
           | Some other \<Rightarrow> Inl (ValueError ''chapter_order must be a list''))
      | other \<Rightarrow> Inl (ValueError ''Invalid response format - missing chapter_order''))"

text \<open>A list of Python integers is a permutation of \<open>0..n-1\<close>.\<close>

definition is_permutation :: "nat \<Rightarrow> pyval list \<Rightarrow> bool" where
  "is_permutation n xs =
     (list_all isinstance_int xs \<and> distinct (map int_value xs)
      \<and> set (map int_value xs) = set (map int [0..<n]))"

section \<open>The core-file selection stage: \<^verbatim>\<open>IdentifyCore.exec\<close>\<close>

text \<open>
  \<^verbatim>\<open>nodes/analysis.py\<close>, lines 225 to 238, again from the loaded value on; \<open>n\<close> is
  \<^verbatim>\<open>len(files_data)\<close>. An item that is no dictionary or has no \<^verbatim>\<open>index\<close> key is
  skipped; the index of another item is compared with the bounds and kept when within.
\<close>

fun item_index :: "pyval \<Rightarrow> pyval option" where
  "item_index (PDict kvs) = dict_get kvs ''index''"
| "item_index v = None"

fun core_loop :: "nat \<Rightarrow> pyval list \<Rightarrow> pyval list \<Rightarrow> py_error + pyval list" where
  "core_loop n [] core_indices = Inr core_indices"
| "core_loop n (item # items) core_indices =
     (case item_index item of
        None \<Rightarrow> core_loop n items core_indices
      | Some idx \<Rightarrow>
          (case chained_range idx n of
             Inl e \<Rightarrow> Inl e
           | Inr True \<Rightarrow> core_loop n items (core_indices @ [idx])
           | Inr False \<Rightarrow> core_loop n items core_indices))"

definition IdentifyCore_exec :: "nat \<Rightarrow> pyval \<Rightarrow> py_error + pyval list" where
  "IdentifyCore_exec n core_selection =
     (case core_selection of
        PDict kvs \<Rightarrow>
          (case dict_get kvs ''core_files'' of
             None \<Rightarrow> Inl (ValueError ''LLM response missing core_files'')
           | Some core_files \<Rightarrow>
               (case py_iter core_files of
                  Inl e \<Rightarrow> Inl e
                | Inr items \<Rightarrow> core_loop n items []))
      | other \<Rightarrow> Inl (ValueError ''LLM response missing core_files''))"

text \<open>An index is numeric when the comparison with the bounds is defined for it.\<close>

fun is_number :: "pyval \<Rightarrow> bool" where
  "is_number (PInt i) = True"
| "is_number (PBool b) = True"
| "is_number (PFloat f) = True"
| "is_number v = False"

definition in_bounds :: "nat \<Rightarrow> pyval \<Rightarrow> bool" where
  "in_bounds n idx = (chained_range idx n = Inr True)"

section \<open>Python strings and paths\<close>

text \<open>
  A string is a list of characters, each standing for one code point below 256.
  The path functions are those of \<^verbatim>\<open>posixpath\<close>: the separator is the slash.
\<close>

text \<open>\<^verbatim>\<open>sub in s\<close>\<close>

fun py_in :: "string \<Rightarrow> string \<Rightarrow> bool" where
  "py_in sub [] = (sub = [])"
| "py_in sub (c # cs) = (prefix sub (c # cs) \<or> py_in sub cs)"

text \<open>\<^verbatim>\<open>s.replace(old, new)\<close>: every occurrence, left to right, without overlap.\<close>

function py_replace :: "string \<Rightarrow> string \<Rightarrow> string \<Rightarrow> string" where
  "py_replace old new [] = (if old = [] then new else [])"
| "py_replace old new (c # cs) =
     (if old = [] then new @ c # py_replace old new cs
      else if prefix old (c # cs) then new @ py_replace old new (drop (length old) (c # cs))
      else c # py_replace old new cs)"
  by pat_completeness auto
termination
  by (relation "measure (\<lambda>(old, new, s). length s)") auto

text \<open>\<^verbatim>\<open>s.split(sep)\<close> for a separator of one character.\<close>

fun py_split :: "char \<Rightarrow> string \<Rightarrow> string list" where
  "py_split sep [] = [] # []"
| "py_split sep (c # cs) =
     (if c = sep then [] # py_split sep cs
      else (case py_split sep cs of [] \<Rightarrow> [c] # [] | w # ws \<Rightarrow> (c # w) # ws))"

text \<open>\<^verbatim>\<open>s.lower()\<close> on code points below 256: the capital letters are 65 to 90 and
  192 to 222 without 215, and the small letter is 32 further (bit 5 set).\<close>

fun set_bit5 :: "char \<Rightarrow> char" where
  "set_bit5 (Char b0 b1 b2 b3 b4 b5 b6 b7) = Char b0 b1 b2 b3 b4 True b6 b7"

definition lower_char :: "char \<Rightarrow> char" where
  "lower_char c =
     (let k = (of_char c :: nat)
      in if (65 \<le> k \<and> k \<le> 90) \<or> (192 \<le> k \<and> k \<le> 222 \<and> k \<noteq> 215)
         then set_bit5 c else c)"

definition py_lower :: "string \<Rightarrow> string" where
  "py_lower s = map lower_char s"

text \<open>\<^verbatim>\<open>s.splitlines()\<close>; the first argument holds the current line, reversed.\<close>

definition is_linebreak :: "char \<Rightarrow> bool" where
  "is_linebreak c = ((of_char c :: nat) \<in> set [10, 11, 12, 13, 28, 29, 30, 133])"

fun splitlines_from :: "string \<Rightarrow> string \<Rightarrow> string list" where
  "splitlines_from cur [] = (if cur = [] then [] else [rev cur])"
| "splitlines_from cur (c # cs) =
     (if c = CHR 0x0D then
        (case cs of
           [] \<Rightarrow> [rev cur]
         | d # ds \<Rightarrow>
             if d = CHR 0x0A then rev cur # splitlines_from [] ds
             else rev cur # splitlines_from [] (d # ds))
      else if is_linebreak c then rev cur # splitlines_from [] cs
      else splitlines_from (c # cur) cs)"

definition py_splitlines :: "string \<Rightarrow> string list" where
  "py_splitlines s = splitlines_from [] s"

text \<open>The part of a string after the last occurrence of a character, and the part up to
  and including it (empty when the character does not occur).\<close>

definition after_last :: "char \<Rightarrow> string \<Rightarrow> string" where
  "after_last c s = rev (takeWhile (\<lambda>x. x \<noteq> c) (rev s))"

definition upto_last :: "char \<Rightarrow> string \<Rightarrow> string" where
  "upto_last c s = rev (dropWhile (\<lambda>x. x \<noteq> c) (rev s))"

definition os_path_basename :: "string \<Rightarrow> string" where
  "os_path_basename p = after_last CHR ''/'' p"

definition os_path_dirname :: "string \<Rightarrow> string" where
  "os_path_dirname p =
     (let head = upto_last CHR ''/'' p
      in if head \<noteq> [] \<and> \<not> list_all (\<lambda>c. c = CHR ''/'') head
         then rev (dropWhile (\<lambda>c. c = CHR ''/'') (rev head)) else head)"

text \<open>\<^verbatim>\<open>os.path.splitext\<close>: the extension starts at the last dot of the last path
  component, unless only dots precede it there.\<close>

definition os_path_splitext :: "string \<Rightarrow> string \<times> string" where
  "os_path_splitext p =
     (let b = after_last CHR ''/'' p; h = upto_last CHR ''/'' p
      in if CHR ''.'' \<in> set b then
           (let stem = butlast (upto_last CHR ''.'' b); ext = CHR ''.'' # after_last CHR ''.'' b
            in if list_ex (\<lambda>c. c \<noteq> CHR ''.'') stem then (h @ stem, ext) else (p, []))
         else (p, []))"

text \<open>\<^verbatim>\<open>repr\<close> of a string, and \<^verbatim>\<open>str\<close> of the key view of a dictionary.\<close>

definition hex_digit :: "nat \<Rightarrow> char" where
  "hex_digit d = ''0123456789abcdef'' ! d"

definition repr_char :: "char \<Rightarrow> char \<Rightarrow> string" where
  "repr_char quote c =
     (let k = (of_char c :: nat)
      in if c = CHR 0x5C then [CHR 0x5C, CHR 0x5C]
         else if c = quote then [CHR 0x5C, quote]
         else if k = 9 then [CHR 0x5C, CHR ''t'']
         else if k = 10 then [CHR 0x5C, CHR ''n'']
         else if k = 13 then [CHR 0x5C, CHR ''r'']
         else if k < 32 \<or> (127 \<le> k \<and> k \<le> 160) \<or> k = 173
           then [CHR 0x5C, CHR ''x'', hex_digit (k div 16), hex_digit (k mod 16)]
         else [c])"

definition py_repr :: "string \<Rightarrow> string" where
  "py_repr s =
     (let quote = (if CHR 0x27 \<in> set s \<and> CHR 0x22 \<notin> set s then CHR 0x22 else CHR 0x27)
      in quote # concat (map (repr_char quote) s) @ [quote])"

fun join :: "string \<Rightarrow> string list \<Rightarrow> string" where
  "join sep [] = []"
| "join sep [x] = x"
| "join sep (x # y # ys) = x @ sep @ join sep (y # ys)"

definition str_dict_keys :: "string list \<Rightarrow> string" where
  "str_dict_keys ks = ''dict_keys(['' @ join '', '' (map py_repr ks) @ ''])''"

section \<open>Dictionaries, sets and counters\<close>

text \<open>
  A dictionary is an association list in insertion order; \<^const>\<open>AList.update\<close> is the
  assignment \<^verbatim>\<open>d[k] = v\<close>: it replaces the value of a key in place and appends a new key.
  A Python set is a list without repetition that holds the elements in the order in which
  they were added. That is not the order in which Python iterates the set: see
  \<open>set_iter\<close> below.
\<close>

definition set_add :: "'a \<Rightarrow> 'a list \<Rightarrow> 'a list" where
  "set_add x xs = (if x \<in> set xs then xs else xs @ [x])"

definition set_update :: "'a list \<Rightarrow> 'a list \<Rightarrow> 'a list" where
  "set_update new xs = fold set_add new xs"

text \<open>\<^verbatim>\<open>d[k] += 1\<close> on a \<^verbatim>\<open>Counter\<close> or a \<^verbatim>\<open>defaultdict(int)\<close>.\<close>

definition counter_incr :: "'k \<Rightarrow> ('k \<times> nat) list \<Rightarrow> ('k \<times> nat) list" where
  "counter_incr k d = AList.update k (case map_of d k of None \<Rightarrow> 1 | Some c \<Rightarrow> c + 1) d"

text \<open>Reading \<^verbatim>\<open>d[k]\<close> from a \<^verbatim>\<open>defaultdict\<close> of sets or lists: empty for an absent key.
  For the dependency graph these are the files that file \<open>k\<close> depends on.\<close>

definition dd_get :: "('k \<times> 'a list) list \<Rightarrow> 'k \<Rightarrow> 'a list" where
  "dd_get d k = (case map_of d k of None \<Rightarrow> [] | Some s \<Rightarrow> s)"

text \<open>\<^verbatim>\<open>d[k].add(v)\<close> on a \<^verbatim>\<open>defaultdict(set)\<close>, and \<^verbatim>\<open>d[k].append(v)\<close> on a
  \<^verbatim>\<open>defaultdict(list)\<close>.\<close>

definition dd_add :: "'k \<Rightarrow> 'a \<Rightarrow> ('k \<times> 'a list) list \<Rightarrow> ('k \<times> 'a list) list" where
  "dd_add k v d = AList.update k (set_add v (dd_get d k)) d"

definition dd_append :: "'k \<Rightarrow> 'a \<Rightarrow> ('k \<times> 'a list) list \<Rightarrow> ('k \<times> 'a list) list" where
  "dd_append k v d = AList.update k (dd_get d k @ [v]) d"

text \<open>
  \<^verbatim>\<open>sorted(xs, key=f, reverse=True)\<close>. CPython reverses the list, sorts it with its
  stable sort, and reverses the result, which keeps elements of equal key in their
  original order.
\<close>

definition sorted_reverse :: "('a \<Rightarrow> nat) \<Rightarrow> 'a list \<Rightarrow> 'a list" where
  "sorted_reverse f xs = rev (sort_key f (rev xs))"

section \<open>The structural analyzer: \<^verbatim>\<open>utils/analyze_file_structure.py\<close>\<close>

subsection \<open>The library the analyzer calls\<close>

text \<open>
  The analyzer calls Python's parser and its regular-expression engine. They are not
  part of the program, so the model takes them as a parameter and its theorems hold for
  every behaviour of the two.

  \<^item> \<open>ast_parse\<close> is \<^verbatim>\<open>ast.walk(ast.parse(content))\<close>: the nodes of the syntax tree in the
    order of the walk, or the exception the parser raised.
  \<^item> \<open>re_findall\<close> is \<^verbatim>\<open>re.findall(pattern, content)\<close> for the patterns of the source,
    each of which has one group, and \<open>re_search\<close> tells whether \<^verbatim>\<open>re.search\<close> finds a match.
  \<^item> \<open>set_slot\<close> decides the order in which a set of strings is iterated. CPython walks
    the slots of the hash table of the set, so the order depends on the hashes of the
    strings and on the history of the set: \<open>set_slot L xs x\<close> is the slot of \<open>x\<close> in the
    set whose elements were added in the order \<open>xs\<close>.

  The patterns are named after the function that uses them: \<open>Py_import\<close> and
  \<open>Py_from\<close> are the two import patterns of \<^verbatim>\<open>analyze_python_regex\<close>, \<open>Py_def\<close> and
  \<open>Py_class\<close> its function and class patterns; \<open>Js_import_from\<close>, \<open>Js_import\<close>,
  \<open>Js_require\<close> and \<open>Js_export\<close> are the patterns of \<^verbatim>\<open>analyze_js_ts_file\<close>; and so on
  for Go, Java and C.
\<close>

datatype ast_node =
    Import "string list"
  | ImportFrom "string option"
  | FunctionDef string
  | ClassDef string
  | OtherNode

datatype regex =
    Py_import | Py_from | Py_def | Py_class
  | Js_import_from | Js_import | Js_require | Js_export
  | Go_import | Go_func
  | Java_import | Java_class
  | C_include | C_func

record pylib =
  ast_parse :: "string \<Rightarrow> py_error + ast_node list"
  re_findall :: "regex \<Rightarrow> string \<Rightarrow> string list"
  re_search :: "regex \<Rightarrow> string \<Rightarrow> bool"
  set_slot :: "string list \<Rightarrow> string \<Rightarrow> nat"

text \<open>\<^verbatim>\<open>for x in s\<close> for a set \<open>s\<close>: the elements by ascending slot. Every arrangement of
  the elements arises for some \<open>set_slot\<close>.\<close>

definition set_iter :: "pylib \<Rightarrow> string list \<Rightarrow> string list" where
  "set_iter L xs = sort_key (set_slot L xs) xs"

subsection \<open>Per-file extraction\<close>

record file_facts =
  size_f :: nat
  lines_f :: nat
  imports_f :: "string list"
  exports_f :: "string list"
  functions_f :: "string list"
  classes_f :: "string list"
  has_main :: bool
  is_config :: bool
  language :: string

definition lang_map :: "(string \<times> string) list" where
  "lang_map =
     [(''.py'', ''python''), (''.pyi'', ''python''), (''.pyx'', ''python''),
      (''.js'', ''javascript''), (''.jsx'', ''javascript''),
      (''.ts'', ''typescript''), (''.tsx'', ''typescript''),
      (''.go'', ''go''),
      (''.java'', ''java''),
      (''.c'', ''c''), (''.h'', ''c''),
      (''.cpp'', ''cpp''), (''.cc'', ''cpp''), (''.cxx'', ''cpp''),
      (''.rs'', ''rust''),
      (''.rb'', ''ruby''),
      (''.php'', ''php''),
      (''.swift'', ''swift''),
      (''.kt'', ''kotlin'')]"

definition detect_language :: "string \<Rightarrow> string" where
  "detect_language file_path =
     (let ext = py_lower (snd (os_path_splitext file_path))
      in case map_of lang_map ext of None \<Rightarrow> ''unknown'' | Some l \<Rightarrow> l)"

definition analyze_python_regex :: "pylib \<Rightarrow> string \<Rightarrow> file_facts \<Rightarrow> file_facts" where
  "analyze_python_regex L content info =
     (let i1 = info\<lparr>imports_f := set_update (re_findall L Py_import content) (imports_f info)\<rparr>;
          i2 = i1\<lparr>imports_f := set_update (re_findall L Py_from content) (imports_f i1)\<rparr>;
          i3 = i2\<lparr>functions_f := functions_f i2 @ re_findall L Py_def content\<rparr>;
          i4 = i3\<lparr>classes_f := classes_f i3 @ re_findall L Py_class content\<rparr>
      in if py_in ''def main('' content
            \<or> py_in (''if __name__ == '' @ [CHR 0x22] @ ''__main__'' @ [CHR 0x22]) content
         then i4\<lparr>has_main := True\<rparr> else i4)"

text \<open>The body of the loop over the nodes of the tree.\<close>

fun visit :: "ast_node \<Rightarrow> file_facts \<Rightarrow> file_facts" where
  "visit (Import names) info = info\<lparr>imports_f := set_update names (imports_f info)\<rparr>"
| "visit (ImportFrom node_module) info =
     (case node_module of
        None \<Rightarrow> info
      | Some m \<Rightarrow> if m \<noteq> [] then info\<lparr>imports_f := set_add m (imports_f info)\<rparr> else info)"
| "visit (FunctionDef name) info =
     (let i1 = info\<lparr>functions_f := functions_f info @ [name]\<rparr>
      in if name = ''main'' then i1\<lparr>has_main := True\<rparr> else i1)"
| "visit (ClassDef name) info = info\<lparr>classes_f := classes_f info @ [name]\<rparr>"
| "visit OtherNode info = info"

text \<open>
  \<^verbatim>\<open>analyze_python_file\<close>: the \<^verbatim>\<open>except\<close> clause names \<^verbatim>\<open>SyntaxError\<close>, so this
  exception alone leads to the regex path; any other exception leaves the function.
\<close>

definition analyze_python_file :: "pylib \<Rightarrow> string \<Rightarrow> file_facts \<Rightarrow> py_error + file_facts" where
  "analyze_python_file L content info =
     (case ast_parse L content of
        Inr nodes \<Rightarrow> Inr (fold visit nodes info)
      | Inl SyntaxError \<Rightarrow> Inr (analyze_python_regex L content info)
      | Inl e \<Rightarrow> Inl e)"

definition analyze_js_ts_file :: "pylib \<Rightarrow> string \<Rightarrow> file_facts \<Rightarrow> file_facts" where
  "analyze_js_ts_file L content info =
     (let i1 = info\<lparr>imports_f := set_update (re_findall L Js_import_from content) (imports_f info)\<rparr>;
          i2 = i1\<lparr>imports_f := set_update (re_findall L Js_import content) (imports_f i1)\<rparr>;
          i3 = i2\<lparr>imports_f := set_update (re_findall L Js_require content) (imports_f i2)\<rparr>
      in if re_search L Js_export content
         then i3\<lparr>exports_f :=
                   set_add (if py_in ''export default'' content then ''default'' else ''named'')
                     (exports_f i3)\<rparr>
         else i3)"

definition analyze_go_file :: "pylib \<Rightarrow> string \<Rightarrow> file_facts \<Rightarrow> file_facts" where
  "analyze_go_file L content info =
     (let i1 = info\<lparr>imports_f := set_update (re_findall L Go_import content) (imports_f info)\<rparr>;
          i2 = i1\<lparr>functions_f := functions_f i1 @ re_findall L Go_func content\<rparr>
      in if py_in ''func main('' content then i2\<lparr>has_main := True\<rparr> else i2)"

definition analyze_java_file :: "pylib \<Rightarrow> string \<Rightarrow> file_facts \<Rightarrow> file_facts" where
  "analyze_java_file L content info =
     (let i1 = info\<lparr>imports_f := set_update (re_findall L Java_import content) (imports_f info)\<rparr>
      in i1\<lparr>classes_f := classes_f i1 @ re_findall L Java_class content\<rparr>)"

definition analyze_c_cpp_file :: "pylib \<Rightarrow> string \<Rightarrow> file_facts \<Rightarrow> file_facts" where
  "analyze_c_cpp_file L content info =
     (let i1 = info\<lparr>imports_f := set_update (re_findall L C_include content) (imports_f info)\<rparr>;
          i2 = i1\<lparr>functions_f := functions_f i1 @ re_findall L C_func content\<rparr>
      in if py_in ''int main('' content then i2\<lparr>has_main := True\<rparr> else i2)"

definition config_indicators :: "string list" where
  "config_indicators =
     [''config'', ''settings'', ''setup'', ''Makefile'', ''Dockerfile'',
      ''.json'', ''.yaml'', ''.yml'', ''.toml'', ''.ini'', ''.cfg'',
      ''.env'', ''.properties'']"

definition is_config_file :: "string \<Rightarrow> string \<Rightarrow> bool" where
  "is_config_file file_path content =
     (let file_lower = py_lower file_path
      in list_ex (\<lambda>indicator. py_in indicator file_lower) config_indicators)"

definition analyze_single_file :: "pylib \<Rightarrow> string \<Rightarrow> string \<Rightarrow> py_error + file_facts" where
  "analyze_single_file L file_path content =
     (let info = \<lparr>size_f = length content, lines_f = length (py_splitlines content),
                  imports_f = [], exports_f = [], functions_f = [], classes_f = [],
                  has_main = False, is_config = False,
                  language = detect_language file_path\<rparr>;
          analyzed =
            (if language info = ''python'' then analyze_python_file L content info
             else if language info \<in> set [''javascript'', ''typescript'']
               then Inr (analyze_js_ts_file L content info)
             else if language info \<in> set [''go''] then Inr (analyze_go_file L content info)
             else if language info \<in> set [''java''] then Inr (analyze_java_file L content info)
             else if language info \<in> set [''c'', ''cpp'']
               then Inr (analyze_c_cpp_file L content info)
             else Inr info)
      in case analyzed of
           Inl e \<Rightarrow> Inl e
         | Inr i \<Rightarrow> Inr (i\<lparr>is_config := is_config_file file_path content\<rparr>))"

subsection \<open>The dependency graph\<close>

text \<open>
  The first loop of \<^verbatim>\<open>build_dependency_graph\<close> maps the two candidate names of each file
  to the file; a later file overwrites the entry of an earlier one with the same name.
\<close>

definition module_name_of :: "string \<Rightarrow> string" where
  "module_name_of file_path =
     py_replace ''.py'' [] (py_replace [CHR 0x5C] ''.'' (py_replace ''/'' ''.'' file_path))"

definition base_name :: "string \<Rightarrow> string" where
  "base_name file_path = fst (os_path_splitext (os_path_basename file_path))"

definition module_to_file :: "string list \<Rightarrow> (string \<times> string) list" where
  "module_to_file all_files =
     fold (\<lambda>file_path m.
             AList.update (base_name file_path) file_path
               (AList.update (module_name_of file_path) file_path m))
       all_files []"

definition add_import ::
  "(string \<times> string) list \<Rightarrow> string \<Rightarrow> string \<Rightarrow> (string \<times> string list) list
     \<Rightarrow> (string \<times> string list) list" where
  "add_import m2f file_path imported_module deps =
     (case map_of m2f imported_module of
        None \<Rightarrow> deps
      | Some target_file \<Rightarrow>
          if target_file \<noteq> file_path then dd_add file_path target_file deps else deps)"

definition build_dependency_graph ::
  "pylib \<Rightarrow> (string \<times> string list) list \<Rightarrow> string list \<Rightarrow> (string \<times> string list) list" where
  "build_dependency_graph L imps all_files =
     (let m2f = module_to_file all_files
      in fold (\<lambda>(file_path, file_imports) deps.
                 fold (add_import m2f file_path) (set_iter L file_imports) deps)
           imps [])"

subsection \<open>Entry points\<close>

definition entry_names :: "string list" where
  "entry_names = [''main.py'', ''app.py'', ''server.py'', ''index.js'', ''main.go'', ''main.java'']"

fun entry_loop :: "(string \<times> file_facts) list \<Rightarrow> string list \<Rightarrow> string list" where
  "entry_loop [] entry_points = entry_points"
| "entry_loop ((file_path, info) # rest) entry_points =
     (if has_main info then entry_loop rest (entry_points @ [file_path])
      else
        (let basename = py_lower (os_path_basename file_path)
         in if basename \<in> set entry_names then entry_loop rest (entry_points @ [file_path])
            else if basename \<in> set [''setup.py'', ''__init__.py''] \<and> size_f info > 100
              then entry_loop rest (entry_points @ [file_path])
            else entry_loop rest entry_points))"

subsection \<open>Core modules\<close>

text \<open>The two nested loops of \<^verbatim>\<open>identify_core_modules\<close> build the dictionary
  \<^verbatim>\<open>dependents\<close>; the inner loop iterates a set.\<close>

definition dependents_of :: "pylib \<Rightarrow> (string \<times> string list) list \<Rightarrow> (string \<times> nat) list" where
  "dependents_of L deps =
     fold (\<lambda>(file_path, ds) dependents. fold counter_incr (set_iter L ds) dependents) deps []"

definition identify_core_modules ::
  "pylib \<Rightarrow> (string \<times> string list) list \<Rightarrow> (string \<times> nat) list" where
  "identify_core_modules L deps = take 10 (sorted_reverse snd (dependents_of L deps))"

subsection \<open>Directory shape and patterns\<close>

record directory_shape =
  directories :: "(string \<times> string list) list"
  depth :: nat
  common_dirs :: "string list"

definition group_dirs :: "string list \<Rightarrow> (string \<times> string list) list" where
  "group_dirs file_paths =
     fold (\<lambda>file_path dirs.
             (let dir_path = os_path_dirname file_path
              in if dir_path \<noteq> [] then dd_append dir_path (os_path_basename file_path) dirs
                 else dirs))
       file_paths []"

text \<open>\<^verbatim>\<open>max\<close> of a sequence raises \<^verbatim>\<open>ValueError\<close> when the sequence is empty.\<close>

fun py_max :: "nat list \<Rightarrow> py_error + nat" where
  "py_max [] = Inl (ValueError ''max() arg is an empty sequence'')"
| "py_max (x # xs) = Inr (fold max xs x)"

definition analyze_directory_structure :: "string list \<Rightarrow> py_error + directory_shape" where
  "analyze_directory_structure file_paths =
     (let dirs = group_dirs file_paths
      in case py_max (map (\<lambda>path. length (py_split CHR ''/'' path)) file_paths) of
           Inl e \<Rightarrow> Inl e
         | Inr d \<Rightarrow>
             Inr \<lparr>directories = dirs, depth = d,
                  common_dirs = map fst (filter (\<lambda>(d, files). length files > 3) dirs)\<rparr>)"

subsection \<open>The analyzer\<close>

record structural_facts =
  file_info :: "(string \<times> file_facts) list"
  imports_s :: "(string \<times> string list) list"
  exports_s :: "(string \<times> string list) list"
  dependencies :: "(string \<times> string list) list"
  entry_points :: "string list"
  core_modules :: "(string \<times> nat) list"
  file_types :: "(string \<times> nat) list"
  directory_structure :: "directory_shape option"
  patterns :: "(string \<times> bool) list"

definition initial_structure :: structural_facts where
  "initial_structure =
     \<lparr>file_info = [], imports_s = [], exports_s = [], dependencies = [], entry_points = [],
      core_modules = [], file_types = [], directory_structure = None, patterns = []\<rparr>"

text \<open>\<^verbatim>\<open>identify_entry_points(structure, files)\<close> reads the per-file records of the
  structure; its second argument is not used.\<close>

definition identify_entry_points ::
  "structural_facts \<Rightarrow> (string \<times> string) list \<Rightarrow> string list" where
  "identify_entry_points st files = entry_loop (file_info st) []"

text \<open>\<^verbatim>\<open>detect_patterns(structure)\<close> reads the directories of the directory shape, which
  the structure holds once \<^verbatim>\<open>analyze_directory_structure\<close> has run.\<close>

definition detect_patterns :: "structural_facts \<Rightarrow> py_error + (string \<times> bool) list" where
  "detect_patterns st =
     (case directory_structure st of
        None \<Rightarrow> Inl (KeyError ''directories'')
      | Some shape \<Rightarrow>
          (let keys = map fst (directories shape);
               keys_str = py_lower (str_dict_keys keys);
               has_mvc = list_ex (\<lambda>d. py_in d keys_str) [''models'', ''views'', ''controllers''];
               has_layers =
                 list_ex (\<lambda>d. py_in d keys_str)
                   [''service'', ''repository'', ''controller'', ''entity''];
               has_tests = list_ex (\<lambda>d. py_in ''test'' (py_lower d)) keys;
               has_packages = (length keys > 3)
           in Inr [(''mvc'', has_mvc), (''layered'', has_layers), (''has_tests'', has_tests),
                   (''modular'', has_packages)]))"

text \<open>One round of the loop over \<^verbatim>\<open>files.items()\<close>, after the file has been analyzed.\<close>

definition record_file :: "string \<Rightarrow> file_facts \<Rightarrow> structural_facts \<Rightarrow> structural_facts" where
  "record_file file_path info st =
     (let s1 = st\<lparr>file_info := AList.update file_path info (file_info st)\<rparr>;
          ext = snd (os_path_splitext file_path);
          s2 = s1\<lparr>file_types := counter_incr ext (file_types s1)\<rparr>;
          s3 = (if imports_f info \<noteq> []
                then s2\<lparr>imports_s := AList.update file_path (imports_f info) (imports_s s2)\<rparr>
                else s2)
      in if exports_f info \<noteq> []
         then s3\<lparr>exports_s := AList.update file_path (exports_f info) (exports_s s3)\<rparr>
         else s3)"

fun analyze_files :: "pylib \<Rightarrow> (string \<times> string) list \<Rightarrow> structural_facts \<Rightarrow> py_error + structural_facts" where
  "analyze_files L [] st = Inr st"
| "analyze_files L ((file_path, content) # rest) st =
     (case analyze_single_file L file_path content of
        Inl e \<Rightarrow> Inl e
      | Inr info \<Rightarrow> analyze_files L rest (record_file file_path info st))"

definition analyze_file_structure :: "pylib \<Rightarrow> (string \<times> string) list \<Rightarrow> py_error + structural_facts" where
  "analyze_file_structure L files =
     (case analyze_files L files initial_structure of
        Inl e \<Rightarrow> Inl e
      | Inr s0 \<Rightarrow>
          (let s1 = s0\<lparr>dependencies := build_dependency_graph L (imports_s s0) (map fst files)\<rparr>;
               s2 = s1\<lparr>entry_points := identify_entry_points s1 files\<rparr>;
               s3 = s2\<lparr>core_modules := identify_core_modules L (dependencies s2)\<rparr>
           in case analyze_directory_structure (map fst files) of
                Inl e \<Rightarrow> Inl e
              | Inr shape \<Rightarrow>
                  (let s4 = s3\<lparr>directory_structure := Some shape\<rparr>
                   in case detect_patterns s4 of
                        Inl e \<Rightarrow> Inl e
                      | Inr found \<Rightarrow> Inr (s4\<lparr>patterns := found\<rparr>))))"

section \<open>The fetch stage: \<^verbatim>\<open>FetchRepo\<close>\<close>

text \<open>
  The shared context is the dictionary \<^verbatim>\<open>shared\<close>; only lookups and assignments by key
  occur, so it is a map from keys to values.
\<close>

type_synonym shared = "string \<Rightarrow> pyval option"

text \<open>\<^verbatim>\<open>shared.get(k)\<close>\<close>

definition shared_get :: "shared \<Rightarrow> string \<Rightarrow> pyval" where
  "shared_get sh k = (case sh k of None \<Rightarrow> PNone | Some v \<Rightarrow> v)"

text \<open>The truth value of an object in a condition.\<close>

fun truthy :: "pyval \<Rightarrow> bool" where
  "truthy PNone = False"
| "truthy (PBool b) = b"
| "truthy (PInt i) = (i \<noteq> 0)"
| "truthy (PFloat (Finite q)) = (q \<noteq> 0)"
| "truthy (PFloat f) = True"
| "truthy (PStr s) = (s \<noteq> [])"
| "truthy (PList xs) = (xs \<noteq> [])"
| "truthy (PDict kvs) = (kvs \<noteq> [])"
| "truthy (PObj x) = True"

record prep_res =
  pr_repo_url :: pyval
  pr_local_dir :: pyval
  pr_token :: pyval
  pr_include_patterns :: pyval
  pr_exclude_patterns :: pyval
  pr_max_file_size :: pyval
  pr_use_relative_paths :: bool

text \<open>
  The two crawlers (\<^verbatim>\<open>utils/crawl_github_files.py\<close>, \<^verbatim>\<open>utils/crawl_local_files.py\<close>) and
  \<^verbatim>\<open>os.path.abspath\<close>, which depends on the working directory, are parameters of the model.
  A crawler returns a dictionary or raises.
\<close>

record providers =
  crawl_github_files :: "prep_res \<Rightarrow> py_error + (pyval \<times> pyval) list"
  crawl_local_files :: "prep_res \<Rightarrow> py_error + (pyval \<times> pyval) list"
  abspath :: "string \<Rightarrow> string"

text \<open>The name \<^verbatim>\<open>prep\<close> derives when the context holds none: a method call on an object
  that is no string raises.\<close>

definition derive_project_name :: "providers \<Rightarrow> pyval \<Rightarrow> pyval \<Rightarrow> py_error + string" where
  "derive_project_name P repo_url local_dir =
     (if truthy repo_url then
        (case repo_url of
           PStr u \<Rightarrow> Inr (py_replace ''.git'' [] (last (py_split CHR ''/'' u)))
         | other \<Rightarrow> Inl AttributeError)
      else
        (case local_dir of
           PStr d \<Rightarrow> Inr (os_path_basename (abspath P d))
         | other \<Rightarrow> Inl TypeError))"

text \<open>\<^verbatim>\<open>shared[k]\<close>\<close>

definition shared_item :: "shared \<Rightarrow> string \<Rightarrow> py_error + pyval" where
  "shared_item sh k = (case sh k of None \<Rightarrow> Inl (KeyError k) | Some v \<Rightarrow> Inr v)"

text \<open>The rest of \<^verbatim>\<open>prep\<close>, after the project name has been settled.\<close>

definition read_patterns :: "shared \<Rightarrow> py_error + prep_res" where
  "read_patterns sh =
     (case shared_item sh ''include_patterns'' of
        Inl e \<Rightarrow> Inl e
      | Inr include_patterns \<Rightarrow>
     (case shared_item sh ''exclude_patterns'' of
        Inl e \<Rightarrow> Inl e
      | Inr exclude_patterns \<Rightarrow>
     (case shared_item sh ''max_file_size'' of
        Inl e \<Rightarrow> Inl e
      | Inr max_file_size \<Rightarrow>
          Inr \<lparr>pr_repo_url = shared_get sh ''repo_url'',
               pr_local_dir = shared_get sh ''local_dir'',
               pr_token = shared_get sh ''github_token'',
               pr_include_patterns = include_patterns,
               pr_exclude_patterns = exclude_patterns,
               pr_max_file_size = max_file_size,
               pr_use_relative_paths = True\<rparr>)))"

text \<open>\<^verbatim>\<open>prep\<close> returns its result, or the exception, together with the context as it
  has left it.\<close>

definition FetchRepo_prep :: "providers \<Rightarrow> shared \<Rightarrow> (py_error + prep_res) \<times> shared" where
  "FetchRepo_prep P sh =
     (if \<not> truthy (shared_get sh ''project_name'') then
        (case derive_project_name P (shared_get sh ''repo_url'') (shared_get sh ''local_dir'') of
           Inl e \<Rightarrow> (Inl e, sh)
         | Inr project_name \<Rightarrow>
             (let sh' = sh(''project_name'' \<mapsto> PStr project_name)
              in (read_patterns sh', sh')))
      else (read_patterns sh, sh))"

text \<open>\<^verbatim>\<open>list(result.get("files", {}).items())\<close>\<close>

definition files_list_of :: "(pyval \<times> pyval) list \<Rightarrow> py_error + pyval list" where
  "files_list_of result =
     (case dict_get result ''files'' of
        None \<Rightarrow> Inr []
      | Some (PDict items) \<Rightarrow> Inr (map (\<lambda>(path, content). PList [path, content]) items)
      | Some other \<Rightarrow> Inl AttributeError)"

definition crawl :: "providers \<Rightarrow> prep_res \<Rightarrow> py_error + (pyval \<times> pyval) list" where
  "crawl P p = (if truthy (pr_repo_url p) then crawl_github_files P p else crawl_local_files P p)"

definition FetchRepo_exec :: "providers \<Rightarrow> prep_res \<Rightarrow> py_error + pyval list" where
  "FetchRepo_exec P p =
     (case crawl P p of
        Inl e \<Rightarrow> Inl e
      | Inr result \<Rightarrow>
          (case files_list_of result of
             Inl e \<Rightarrow> Inl e
           | Inr files_list \<Rightarrow>
               if length files_list = 0 then Inl (ValueError ''Failed to fetch files'')
               else Inr files_list))"

definition FetchRepo_post :: "shared \<Rightarrow> pyval list \<Rightarrow> shared" where
  "FetchRepo_post sh exec_res = sh(''files'' \<mapsto> PList exec_res)"

text \<open>
  Modelled from the spec: the engine that runs a stage is the \<^verbatim>\<open>pocketflow\<close> package,
  which is not in the source tree. The spec has a stage attempted up to its budget, its
  failure ending the run once the budget is spent, and its outputs written on success.
  \<^verbatim>\<open>flow.py\<close> creates the fetch stage without a budget, and the spec gives a fetch failure
  no retry, so the unit of work runs once. The run returns the outcome and the context.
\<close>

definition FetchRepo_run :: "providers \<Rightarrow> shared \<Rightarrow> (py_error + unit) \<times> shared" where
  "FetchRepo_run P sh =
     (case FetchRepo_prep P sh of
        (Inl e, sh1) \<Rightarrow> (Inl e, sh1)
      | (Inr p, sh1) \<Rightarrow>
          (case FetchRepo_exec P p of
             Inl e \<Rightarrow> (Inl e, sh1)
           | Inr exec_res \<Rightarrow> (Inr (), FetchRepo_post sh1 exec_res)))"

section \<open>The cache argument of the reasoning calls\<close>

text \<open>
  Each of these stages calls \<^verbatim>\<open>call_llm\<close> once in its unit of work. \<open>call_llm_use_cache\<close>
  is the \<^verbatim>\<open>use_cache\<close> argument of that call, from the run's toggle and the attempt counter
  \<^verbatim>\<open>self.cur_retry\<close>; it is \<open>None\<close> where the call passes the prompt alone.
\<close>

datatype stage =
    AnalyzeStructure | IdentifyCore | IdentifyAbstractions | AnalyzeRelationships
  | OrderChapters | WriteProjectOverview | WriteChapters

fun call_llm_use_cache :: "stage \<Rightarrow> bool \<Rightarrow> nat \<Rightarrow> bool option" where
  "call_llm_use_cache AnalyzeStructure use_cache cur_retry = Some (use_cache \<and> cur_retry = 0)"
| "call_llm_use_cache IdentifyCore use_cache cur_retry = Some (use_cache \<and> cur_retry = 0)"
| "call_llm_use_cache IdentifyAbstractions use_cache cur_retry = None"
| "call_llm_use_cache AnalyzeRelationships use_cache cur_retry = None"
| "call_llm_use_cache OrderChapters use_cache cur_retry = None"
| "call_llm_use_cache WriteProjectOverview use_cache cur_retry = None"
| "call_llm_use_cache WriteChapters use_cache cur_retry = None"

text \<open>
  Modelled from the spec: \<^verbatim>\<open>utils/call_llm.py\<close> is not in the source tree. The adapter
  takes a prompt and a cache-allowed flag; \<open>dflt\<close> is the value of the flag when the
  caller passes none.
\<close>

definition cache_allowed :: "bool \<Rightarrow> bool option \<Rightarrow> bool" where
  "cache_allowed dflt arg = (case arg of None \<Rightarrow> dflt | Some b \<Rightarrow> b)"

section \<open>The order in which files are first seen\<close>

text \<open>
  The statement about the ranking speaks of the order in which the files are first seen.
  These two definitions follow those words and are no part of the program: \<open>visited\<close> is
  the sequence of the targets that the two loops of \<^verbatim>\<open>identify_core_modules\<close> meet, file by
  file and within a file in the order of its set, and \<open>first_seen xs x\<close> is the position
  of the first occurrence of \<open>x\<close> in a sequence (its length when \<open>x\<close> does not occur).
\<close>

definition visited :: "pylib \<Rightarrow> (string \<times> string list) list \<Rightarrow> string list" where
  "visited L deps = concat (map (\<lambda>(file_path, ds). set_iter L ds) deps)"

definition first_seen :: "'a list \<Rightarrow> 'a \<Rightarrow> nat" where
  "first_seen xs x = length (takeWhile (\<lambda>y. y \<noteq> x) xs)"

section \<open>Sample inputs\<close>

text \<open>
  The examples below run the model on small inputs. They need one behaviour of the
  library: \<open>sample_lib\<close> is a parser that knows four sources, with the nodes Python's
  walk yields for them (the module first), and raises \<^verbatim>\<open>SyntaxError\<close> on a fifth; its
  regular expressions find nothing; and its sets iterate by descending first character.
\<close>

definition sample_lib :: pylib where
  "sample_lib =
     \<lparr>ast_parse =
        (\<lambda>content.
           if content = ''import helper'' then Inr [OtherNode, Import [''helper''], OtherNode]
           else if content = ''import utils.helper''
             then Inr [OtherNode, Import [''utils.helper''], OtherNode]
           else if content = ''def main(): pass''
             then Inr [OtherNode, FunctionDef ''main'', OtherNode, OtherNode]
           else if content = ''def ('' then Inl SyntaxError
           else Inr [OtherNode]),
      re_findall = (\<lambda>r content. []),
      re_search = (\<lambda>r content. False),
      set_slot = (\<lambda>xs x. case x of [] \<Rightarrow> 0 | c # cs \<Rightarrow> 255 - of_char c)\<rparr>"

definition sample_files :: "(string \<times> string) list" where
  "sample_files = [(''main.py'', ''import helper''), (''helper.py'', ''def main(): pass'')]"




text \<open>A dependency graph of three files over four targets.\<close>

definition sample_graph :: "(string \<times> string list) list" where
  "sample_graph =
     [(''a'', [''w'', ''x'']), (''b'', [''x'', ''y'']), (''c'', [''y'', ''z'', ''x''])]"

text \<open>A source provider that finds no file, and a context that names a repository and no
  project.\<close>

definition empty_provider :: providers where
  "empty_provider =
     \<lparr>crawl_github_files = (\<lambda>p. Inr [(PStr ''files'', PDict [])]),
      crawl_local_files = (\<lambda>p. Inr [(PStr ''files'', PDict [])]),
      abspath = (\<lambda>d. d)\<rparr>"

definition sample_shared :: shared where
  "sample_shared =
     [''repo_url'' \<mapsto> PStr ''https://github.com/u/r.git'',
      ''include_patterns'' \<mapsto> PList [PStr ''*.py''],
      ''exclude_patterns'' \<mapsto> PList [],
      ''max_file_size'' \<mapsto> PInt 100000]"

section \<open>Properties of the ordering and selection stages\<close>

lemma chained_range_number: "is_number idx \<Longrightarrow> chained_range idx n = Inr (in_bounds n idx)"
  by (cases "(idx, n)" rule: chained_range.cases) (auto simp: in_bounds_def)

lemma valid_index_py_range: "list_all (valid_index n) (py_range n)"
  by (simp add: py_range_def list_all_iff valid_index_def)

lemma is_permutation_py_range: "is_permutation n (py_range n)"
  by (simp add: is_permutation_def py_range_def list_all_iff comp_def distinct_map inj_on_def)

lemma is_permutation_valid: "is_permutation n xs \<Longrightarrow> filter (valid_index n) xs = xs"
proof -
  assume p: "is_permutation n xs"
  have "valid_index n x" if "x \<in> set xs" for x
  proof -
    from p that have "isinstance_int x" by (simp add: is_permutation_def list_all_iff)
    moreover from p that have "int_value x \<in> set (map int [0..<n])"
      unfolding is_permutation_def by (metis image_eqI set_map)
    ultimately show ?thesis by (auto simp: valid_index_def)
  qed
  then show ?thesis by (simp add: filter_id_conv)
qed

lemma is_permutation_empty: "is_permutation n [] \<Longrightarrow> py_range n = []"
  by (auto simp: is_permutation_def py_range_def)

lemma order_validate_valid: "list_all (valid_index n) (order_validate n xs)"
  using valid_index_py_range by (simp add: order_validate_def Let_def list_all_iff)

lemma order_validate_permutation: "is_permutation n xs \<Longrightarrow> order_validate n xs = xs"
  using is_permutation_valid [of n xs] is_permutation_empty [of n]
  by (auto simp: order_validate_def Let_def)

text \<open>
  Claim C1, as stated, fails: for two abstractions and the returned list \<open>[0, 0]\<close> the
  stage stores \<open>[0, 0]\<close>, which is neither a permutation of \<open>{0, 1}\<close> nor the identity
  order.
\<close>

theorem stored_order_counterexample:
  "OrderChapters_exec 2 (PDict [(PStr ''chapter_order'', PList [PInt 0, PInt 0])]) = Inr [PInt 0, PInt 0]
   \<and> \<not> is_permutation 2 [PInt 0, PInt 0]
   \<and> [PInt 0, PInt 0] \<noteq> py_range 2"
  by (simp add: OrderChapters_exec_def dict_get_def order_validate_def valid_index_def
      is_permutation_def py_range_def upt_rec)

text \<open>
  Claim C1, amended: for every number \<open>n\<close> of abstractions and every parsed
  \<^verbatim>\<open>chapter_order\<close> list, the stage returns, and the order it stores is the list of the
  returned entries that are integers within \<open>0..n-1\<close>, in their order and with their
  repetitions, or the identity order when no entry qualifies. Every stored entry lies
  within \<open>0..n-1\<close>; a returned list that is a permutation of \<open>0..n-1\<close> is stored
  unchanged; and the identity order is a permutation.
\<close>

theorem stored_order_in_range:
  assumes "dict_get kvs ''chapter_order'' = Some (PList chapter_order)"
  shows "\<exists>stored. OrderChapters_exec n (PDict kvs) = Inr stored
     \<and> stored = (if filter (valid_index n) chapter_order = [] then py_range n
                 else filter (valid_index n) chapter_order)
     \<and> list_all (valid_index n) stored
     \<and> (is_permutation n chapter_order \<longrightarrow> stored = chapter_order)
     \<and> (filter (valid_index n) chapter_order = [] \<longrightarrow> is_permutation n stored)"
proof -
  have e: "OrderChapters_exec n (PDict kvs) = Inr (order_validate n chapter_order)"
    using assms by (simp add: OrderChapters_exec_def)
  have "order_validate n chapter_order =
      (if filter (valid_index n) chapter_order = [] then py_range n
       else filter (valid_index n) chapter_order)"
    by (simp add: order_validate_def Let_def)
  moreover have "filter (valid_index n) chapter_order = [] \<longrightarrow>
      is_permutation n (order_validate n chapter_order)"
    by (simp add: order_validate_def is_permutation_py_range)
  ultimately show ?thesis
    using e order_validate_valid [of n chapter_order] order_validate_permutation [of n chapter_order]
    by auto
qed

text \<open>The theorem at a permutation of three indices, and at a list without any index
  in range.\<close>

theorem stored_order_in_range_witness:
  "(\<exists>stored. OrderChapters_exec 3 (PDict [(PStr ''chapter_order'', PList [PInt 2, PInt 0, PInt 1])]) = Inr stored
      \<and> stored = [PInt 2, PInt 0, PInt 1])
   \<and> is_permutation 3 [PInt 2, PInt 0, PInt 1]
   \<and> (\<exists>stored. OrderChapters_exec 2 (PDict [(PStr ''chapter_order'', PList [PInt 7, PStr ''x''])]) = Inr stored
      \<and> stored = [PInt 0, PInt 1] \<and> is_permutation 2 stored)
   \<and> filter (valid_index 2) [PInt 7, PStr ''x''] = []"
proof -
  have p: "is_permutation 3 [PInt 2, PInt 0, PInt 1]"
    by (auto simp: is_permutation_def)
  have h1: "dict_get [(PStr ''chapter_order'', PList [PInt 2, PInt 0, PInt 1])] ''chapter_order''
      = Some (PList [PInt 2, PInt 0, PInt 1])"
    by (simp add: dict_get_def)
  have h2: "dict_get [(PStr ''chapter_order'', PList [PInt 7, PStr ''x''])] ''chapter_order''
      = Some (PList [PInt 7, PStr ''x''])"
    by (simp add: dict_get_def)
  have f: "filter (valid_index 2) [PInt 7, PStr ''x''] = []"
    by (simp add: valid_index_def)
  have r: "py_range 2 = [PInt 0, PInt 1]"
    by (simp add: py_range_def upt_rec)
  from stored_order_in_range [OF h1, of 3] p
  have a: "\<exists>stored. OrderChapters_exec 3 (PDict [(PStr ''chapter_order'', PList [PInt 2, PInt 0, PInt 1])]) = Inr stored
      \<and> stored = [PInt 2, PInt 0, PInt 1]" by auto
  from stored_order_in_range [OF h2, of 2] f r
  have b: "\<exists>stored. OrderChapters_exec 2 (PDict [(PStr ''chapter_order'', PList [PInt 7, PStr ''x''])]) = Inr stored
      \<and> stored = [PInt 0, PInt 1] \<and> is_permutation 2 stored" by auto
  from a b p f show ?thesis by blast
qed

text \<open>
  Claim C4, as stated, fails: with two files, a core-file item of index 5 makes the
  selection stage return the empty list, and with two abstractions the order \<open>[5, 1]\<close>
  makes the ordering stage return \<open>[1]\<close>. Neither stage raises.
\<close>

theorem out_of_range_counterexample:
  "IdentifyCore_exec 2 (PDict [(PStr ''core_files'', PList [PDict [(PStr ''index'', PInt 5)]])]) = Inr []
   \<and> OrderChapters_exec 2 (PDict [(PStr ''chapter_order'', PList [PInt 5, PInt 1])]) = Inr [PInt 1]"
  by (simp add: IdentifyCore_exec_def OrderChapters_exec_def dict_get_def order_validate_def
      valid_index_def)

text \<open>The comparison with the bounds raises for an index that is no number, and the
  loop of the selection stage ends there.\<close>

lemma chained_range_other: "\<not> is_number idx \<Longrightarrow> chained_range idx n = Inl TypeError"
  by (cases "(idx, n)" rule: chained_range.cases) auto

lemma in_bounds_int: "in_bounds n (PInt i) = (0 \<le> i \<and> i < int n)"
  by (simp add: in_bounds_def)

lemma core_loop_result:
  "core_loop n items acc =
     (if list_all (\<lambda>item. case item_index item of None \<Rightarrow> True | Some idx \<Rightarrow> is_number idx) items
      then Inr (acc @ filter (in_bounds n) (List.map_filter item_index items))
      else Inl TypeError)"
proof (induction items arbitrary: acc)
  case Nil
  then show ?case by simp
next
  case (Cons item items)
  show ?case
  proof (cases "item_index item")
    case None
    with Cons show ?thesis by simp
  next
    case (Some idx)
    show ?thesis
    proof (cases "is_number idx")
      case True
      then have "chained_range idx n = Inr (in_bounds n idx)" by (rule chained_range_number)
      with Some True Cons show ?thesis by simp
    next
      case False
      then have "chained_range idx n = Inl TypeError" by (rule chained_range_other)
      with Some False show ?thesis by simp
    qed
  qed
qed

text \<open>
  Claim C4, amended: a numeric index outside the valid range raises no contract violation;
  it is dropped. The core-file selection, given a list of items, returns the indices
  within the bounds, in their order, when every index present is a number, and raises
  \<^verbatim>\<open>TypeError\<close> at the comparison when some index is not a number; an integer index is
  within the bounds exactly when it lies in \<open>0..n-1\<close>. The ordering stage, given a list,
  returns the entries that are integers within \<open>0..m-1\<close>, in their order, or the
  identity order when there is none.
\<close>

theorem out_of_range_index_dropped:
  "(dict_get kvs ''core_files'' = Some (PList items) \<longrightarrow>
      IdentifyCore_exec n (PDict kvs) =
        (if list_all (\<lambda>item. case item_index item of None \<Rightarrow> True | Some idx \<Rightarrow> is_number idx)
              items
         then Inr (filter (in_bounds n) (List.map_filter item_index items))
         else Inl TypeError))
   \<and> in_bounds n (PInt i) = (0 \<le> i \<and> i < int n)
   \<and> (dict_get kvs' ''chapter_order'' = Some (PList chapter_order) \<longrightarrow>
      OrderChapters_exec m (PDict kvs') =
        Inr (if filter (valid_index m) chapter_order = [] then py_range m
             else filter (valid_index m) chapter_order))"
proof (intro conjI impI)
  assume "dict_get kvs ''core_files'' = Some (PList items)"
  then show "IdentifyCore_exec n (PDict kvs) =
        (if list_all (\<lambda>item. case item_index item of None \<Rightarrow> True | Some idx \<Rightarrow> is_number idx)
              items
         then Inr (filter (in_bounds n) (List.map_filter item_index items))
         else Inl TypeError)"
    using core_loop_result [of n items "[]"] by (simp add: IdentifyCore_exec_def)
next
  show "in_bounds n (PInt i) = (0 \<le> i \<and> i < int n)" by (rule in_bounds_int)
next
  assume "dict_get kvs' ''chapter_order'' = Some (PList chapter_order)"
  then show "OrderChapters_exec m (PDict kvs') =
        Inr (if filter (valid_index m) chapter_order = [] then py_range m
             else filter (valid_index m) chapter_order)"
    by (simp add: OrderChapters_exec_def order_validate_def Let_def)
qed

text \<open>
  The theorem at four responses: indices 5 and 1 around an item that is no dictionary;
  index 5 and an index that is a string; the order \<open>[5, 1]\<close>; and the order \<open>[5]\<close>.
\<close>

theorem out_of_range_index_dropped_witness:
  "IdentifyCore_exec 2 (PDict [(PStr ''core_files'',
       PList [PDict [(PStr ''index'', PInt 5)], PStr ''x'', PDict [(PStr ''index'', PInt 1)]])])
     = Inr [PInt 1]
   \<and> IdentifyCore_exec 2 (PDict [(PStr ''core_files'',
       PList [PDict [(PStr ''index'', PInt 5)], PDict [(PStr ''index'', PStr ''a'')]])])
     = Inl TypeError
   \<and> OrderChapters_exec 2 (PDict [(PStr ''chapter_order'', PList [PInt 5, PInt 1])])
     = Inr [PInt 1]
   \<and> OrderChapters_exec 2 (PDict [(PStr ''chapter_order'', PList [PInt 5])])
     = Inr [PInt 0, PInt 1]"
proof -
  let ?clean = "[PDict [(PStr ''index'', PInt 5)], PStr ''x'', PDict [(PStr ''index'', PInt 1)]]"
  let ?mixed = "[PDict [(PStr ''index'', PInt 5)], PDict [(PStr ''index'', PStr ''a'')]]"
  have h1: "dict_get [(PStr ''core_files'', PList ?clean)] ''core_files'' = Some (PList ?clean)"
    by (simp add: dict_get_def)
  have h2: "dict_get [(PStr ''core_files'', PList ?mixed)] ''core_files'' = Some (PList ?mixed)"
    by (simp add: dict_get_def)
  have h3: "dict_get [(PStr ''chapter_order'', PList [PInt 5, PInt 1])] ''chapter_order''
      = Some (PList [PInt 5, PInt 1])"
    by (simp add: dict_get_def)
  have h4: "dict_get [(PStr ''chapter_order'', PList [PInt 5])] ''chapter_order''
      = Some (PList [PInt 5])"
    by (simp add: dict_get_def)
  have r: "py_range 2 = [PInt 0, PInt 1]"
    by (simp add: py_range_def upt_rec)
  from out_of_range_index_dropped
    [of "[(PStr ''core_files'', PList ?clean)]" ?clean 2 0
        "[(PStr ''chapter_order'', PList [PInt 5, PInt 1])]" "[PInt 5, PInt 1]" 2] h1 h3
  have a: "IdentifyCore_exec 2 (PDict [(PStr ''core_files'', PList ?clean)]) = Inr [PInt 1]"
    and c: "OrderChapters_exec 2 (PDict [(PStr ''chapter_order'', PList [PInt 5, PInt 1])])
      = Inr [PInt 1]"
    by (simp_all add: dict_get_def in_bounds_def valid_index_def)
  from out_of_range_index_dropped
    [of "[(PStr ''core_files'', PList ?mixed)]" ?mixed 2 0
        "[(PStr ''chapter_order'', PList [PInt 5])]" "[PInt 5]" 2] h2 h4 r
  have b: "IdentifyCore_exec 2 (PDict [(PStr ''core_files'', PList ?mixed)]) = Inl TypeError"
    and d: "OrderChapters_exec 2 (PDict [(PStr ''chapter_order'', PList [PInt 5])])
      = Inr [PInt 0, PInt 1]"
    by (simp_all add: dict_get_def in_bounds_def valid_index_def)
  from a b c d show ?thesis by blast
qed

section \<open>Properties of the structural analyzer\<close>

subsection \<open>Dictionaries\<close>

lemma map_of_update: "map_of (AList.update k v d) = (map_of d)(k \<mapsto> v)"
  by (rule update_conv')

lemma distinct_keys_update: "distinct (map fst d) \<Longrightarrow> distinct (map fst (AList.update k v d))"
  by (simp add: distinct_update)

lemma distinct_keys_dd_add: "distinct (map fst d) \<Longrightarrow> distinct (map fst (dd_add k v d))"
  by (simp add: dd_add_def distinct_update)

lemma dd_get_dd_add:
  "dd_get (dd_add k v d) A = (if A = k then set_add v (dd_get d k) else dd_get d A)"
  by (simp add: dd_get_def dd_add_def map_of_update)

lemma set_set_add: "set (set_add x xs) = insert x (set xs)"
  by (auto simp: set_add_def)

lemma distinct_set_add: "distinct xs \<Longrightarrow> distinct (set_add x xs)"
  by (simp add: set_add_def)

lemma dd_get_distinct_keys: "distinct (map fst d) \<Longrightarrow> (A, ds) \<in> set d \<Longrightarrow> dd_get d A = ds"
  by (simp add: dd_get_def)

subsection \<open>The dependency graph\<close>

lemma module_to_file_fold:
  "map_of (fold (\<lambda>file_path m.
             AList.update (base_name file_path) file_path
               (AList.update (module_name_of file_path) file_path m)) fs m0) name = Some t
   \<Longrightarrow> t \<in> set fs \<or> map_of m0 name = Some t"
proof (induction fs arbitrary: m0)
  case Nil
  then show ?case by simp
next
  case (Cons f fs)
  from Cons.IH [OF Cons.prems [simplified]] show ?case
    by (auto simp: map_of_update split: if_splits)
qed

lemma module_to_file_target: "map_of (module_to_file fs) name = Some t \<Longrightarrow> t \<in> set fs"
  using module_to_file_fold [of fs "[]" name t] by (simp add: module_to_file_def)

lemma dd_get_add_import:
  "set (dd_get (add_import m2f fp m deps) A) =
     set (dd_get deps A) \<union> {t. A = fp \<and> map_of m2f m = Some t \<and> t \<noteq> fp}"
  by (auto simp: add_import_def dd_get_dd_add set_set_add split: option.splits)

lemma dd_get_fold_add_import:
  "set (dd_get (fold (add_import m2f fp) ms deps) A) =
     set (dd_get deps A) \<union> {t. A = fp \<and> (\<exists>m\<in>set ms. map_of m2f m = Some t) \<and> t \<noteq> fp}"
proof (induction ms arbitrary: deps)
  case Nil
  then show ?case by simp
next
  case (Cons m ms)
  show ?case by (simp add: Cons.IH dd_get_add_import) blast
qed

lemma set_set_iter: "set (set_iter L xs) = set xs"
  by (simp add: set_iter_def)

lemma distinct_set_iter: "distinct (set_iter L xs) = distinct xs"
  by (simp add: set_iter_def)

lemma dd_get_fold_imports:
  "set (dd_get (fold (\<lambda>(file_path, file_imports) deps.
                 fold (add_import m2f file_path) (set_iter L file_imports) deps) imps deps) A) =
     set (dd_get deps A)
       \<union> {t. \<exists>ms m. (A, ms) \<in> set imps \<and> m \<in> set ms \<and> map_of m2f m = Some t \<and> t \<noteq> A}"
proof (induction imps arbitrary: deps)
  case Nil
  then show ?case by simp
next
  case (Cons e imps)
  obtain fp ms where e: "e = (fp, ms)" by (cases e)
  show ?case by (simp add: e Cons.IH dd_get_fold_add_import set_set_iter) blast
qed

lemma dd_get_build_dependency_graph:
  "set (dd_get (build_dependency_graph L imps all_files) A) =
     {t. \<exists>ms m. (A, ms) \<in> set imps \<and> m \<in> set ms
          \<and> map_of (module_to_file all_files) m = Some t \<and> t \<noteq> A}"
  unfolding build_dependency_graph_def Let_def dd_get_fold_imports
  by (simp add: dd_get_def)

lemma distinct_keys_add_import:
  "distinct (map fst deps) \<Longrightarrow> distinct (map fst (add_import m2f fp m deps))"
  by (simp add: add_import_def distinct_keys_dd_add split: option.splits)

lemma distinct_keys_fold_add_import:
  "distinct (map fst deps) \<Longrightarrow> distinct (map fst (fold (add_import m2f fp) ms deps))"
  by (induction ms arbitrary: deps) (simp_all add: distinct_keys_add_import)

lemma distinct_keys_fold_imports:
  "distinct (map fst deps) \<Longrightarrow>
   distinct (map fst (fold (\<lambda>(file_path, file_imports) deps.
                 fold (add_import m2f file_path) (set_iter L file_imports) deps) imps deps))"
  by (induction imps arbitrary: deps) (auto simp: distinct_keys_fold_add_import)

lemma distinct_keys_build: "distinct (map fst (build_dependency_graph L imps all_files))"
  by (simp add: build_dependency_graph_def Let_def distinct_keys_fold_imports)

lemma build_dependency_graph_edge:
  assumes "(A, ds) \<in> set (build_dependency_graph L imps all_files)" "B \<in> set ds"
  shows "B \<in> set all_files \<and> B \<noteq> A"
proof -
  from assms(1) have "dd_get (build_dependency_graph L imps all_files) A = ds"
    by (rule dd_get_distinct_keys [OF distinct_keys_build])
  with assms(2) have "B \<in> set (dd_get (build_dependency_graph L imps all_files) A)" by simp
  then show ?thesis
    by (auto simp: dd_get_build_dependency_graph dest: module_to_file_target)
qed

lemma set_alist_update: "set (AList.update k v d) \<subseteq> insert (k, v) (set d)"
  by (induction d) auto

lemma dd_get_distinct:
  assumes "\<forall>(A, ds)\<in>set d. distinct ds"
  shows "distinct (dd_get d k)"
proof (cases "map_of d k")
  case None
  then show ?thesis by (simp add: dd_get_def)
next
  case (Some s)
  then have "(k, s) \<in> set d" by (rule map_of_SomeD)
  with assms have "distinct s" by auto
  with Some show ?thesis by (simp add: dd_get_def)
qed

lemma dd_add_sets:
  assumes "\<forall>(A, ds)\<in>set d. distinct ds"
  shows "\<forall>(A, ds)\<in>set (dd_add k v d). distinct ds"
proof -
  have "distinct (set_add v (dd_get d k))"
    using dd_get_distinct [OF assms] by (rule distinct_set_add)
  with assms set_alist_update [of k "set_add v (dd_get d k)" d]
  show ?thesis unfolding dd_add_def by blast
qed

lemma add_import_sets:
  "\<forall>(A, ds)\<in>set deps. distinct ds \<Longrightarrow> \<forall>(A, ds)\<in>set (add_import m2f fp m deps). distinct ds"
  using dd_add_sets [of deps] by (simp add: add_import_def split: option.splits)

lemma fold_add_import_sets:
  "\<forall>(A, ds)\<in>set deps. distinct ds \<Longrightarrow>
   \<forall>(A, ds)\<in>set (fold (add_import m2f fp) ms deps). distinct ds"
proof (induction ms arbitrary: deps)
  case Nil
  then show ?case by simp
next
  case (Cons m ms)
  from Cons.IH [OF add_import_sets [OF Cons.prems]] show ?case by simp
qed

lemma fold_imports_sets:
  "\<forall>(A, ds)\<in>set deps. distinct ds \<Longrightarrow>
   \<forall>(A, ds)\<in>set (fold (\<lambda>(file_path, file_imports) deps.
                 fold (add_import m2f file_path) (set_iter L file_imports) deps) imps deps).
      distinct ds"
proof (induction imps arbitrary: deps)
  case Nil
  then show ?case by simp
next
  case (Cons e imps)
  obtain fp ms where e: "e = (fp, ms)" by (cases e)
  from Cons.IH [OF fold_add_import_sets [OF Cons.prems, of m2f fp "set_iter L ms"]] show ?case
    by (simp add: e)
qed

lemma build_dependency_graph_sets:
  "\<forall>(A, ds)\<in>set (build_dependency_graph L imps all_files). distinct ds"
  unfolding build_dependency_graph_def Let_def by (rule fold_imports_sets) simp

subsection \<open>The loop over the files\<close>

lemma record_file_distinct:
  "distinct (map fst (file_info st)) \<Longrightarrow> distinct (map fst (file_info (record_file p i st)))"
  by (simp add: record_file_def Let_def distinct_update)


lemma analyze_files_distinct:
  "analyze_files L files st = Inr s \<Longrightarrow> distinct (map fst (file_info st)) \<Longrightarrow>
   distinct (map fst (file_info s))"
proof (induction L files st rule: analyze_files.induct)
  case (1 L st)
  then show ?case by simp
next
  case (2 L file_path content rest st)
  then show ?case by (auto split: sum.splits intro: record_file_distinct)
qed


text \<open>What the analyzer returns, in terms of the state after the loop.\<close>

lemma analyze_file_structure_Inr:
  "analyze_file_structure L files = Inr s \<Longrightarrow>
   \<exists>s0. analyze_files L files initial_structure = Inr s0
     \<and> file_info s = file_info s0
     \<and> imports_s s = imports_s s0
     \<and> dependencies s = build_dependency_graph L (imports_s s0) (map fst files)
     \<and> entry_points s = entry_loop (file_info s0) []
     \<and> core_modules s = identify_core_modules L (dependencies s)"
  by (auto simp: analyze_file_structure_def identify_entry_points_def Let_def split: sum.splits)

text \<open>The graph the analyzer ranks is a dictionary of sets, and the ranking it returns is
  that of its graph.\<close>

lemma analyzer_core_modules:
  assumes "analyze_file_structure L files = Inr s"
  shows "core_modules s = identify_core_modules L (dependencies s)
     \<and> distinct (map fst (dependencies s))
     \<and> (\<forall>(A, ds)\<in>set (dependencies s). distinct ds)"
proof -
  from analyze_file_structure_Inr [OF assms] obtain s0 :: structural_facts where
    d: "dependencies s = build_dependency_graph L (imports_s s0) (map fst files)"
    and c: "core_modules s = identify_core_modules L (dependencies s)" by blast
  from c show ?thesis
    unfolding d using distinct_keys_build build_dependency_graph_sets by blast
qed

subsection \<open>Entry points\<close>

lemma entry_loop_distinct:
  "distinct (acc @ map fst infos) \<Longrightarrow> distinct (entry_loop infos acc)"
proof (induction infos acc rule: entry_loop.induct)
  case (1 entry_points)
  then show ?case by simp
next
  case (2 file_path info rest entry_points)
  from "2.prems" have a: "distinct ((entry_points @ [file_path]) @ map fst rest)"
    and b: "distinct (entry_points @ map fst rest)" by auto
  show ?case
    using "2.IH" a b by (simp add: Let_def del: set_simps)
qed


subsection \<open>The analyzer on the sample files\<close>

lemma sample_run:
  "case analyze_file_structure sample_lib sample_files of
     Inl e \<Rightarrow> False
   | Inr s \<Rightarrow> dependencies s = [(''main.py'', [''helper.py''])]
       \<and> imports_s s = [(''main.py'', [''helper''])]
       \<and> entry_points s = [''main.py'', ''helper.py'']"
  by code_simp


lemma sample_run_Inr:
  "\<exists>s. analyze_file_structure sample_lib sample_files = Inr s
     \<and> dependencies s = [(''main.py'', [''helper.py''])]
     \<and> imports_s s = [(''main.py'', [''helper''])]
     \<and> entry_points s = [''main.py'', ''helper.py'']"
  using sample_run by (cases "analyze_file_structure sample_lib sample_files") auto

subsection \<open>The claims about the dependency graph and the entry points\<close>

text \<open>
  Claim C2: for every input mapping from file paths to contents on which the analyzer
  returns, every edge from \<open>A\<close> to \<open>B\<close> of the dependency graph has \<open>B\<close> a key of the
  input mapping and \<open>B\<close> different from \<open>A\<close>; so the graph has no self-edge.
\<close>

theorem dependency_graph_edges:
  assumes "analyze_file_structure L files = Inr s"
    and "(A, ds) \<in> set (dependencies s)" and "B \<in> set ds"
  shows "B \<in> fst ` set files \<and> B \<noteq> A"
proof -
  from analyze_file_structure_Inr [OF assms(1)] obtain s0 :: structural_facts where
    "dependencies s = build_dependency_graph L (imports_s s0) (map fst files)" by blast
  with assms(2,3) show ?thesis
    using build_dependency_graph_edge [of A ds L "imports_s s0" "map fst files" B] by simp
qed

text \<open>
  The theorem on the sample files, where \<^verbatim>\<open>main.py\<close> imports \<^verbatim>\<open>helper\<close>.
\<close>

theorem dependency_graph_edges_witness:
  "\<exists>s. analyze_file_structure sample_lib sample_files = Inr s
     \<and> (''main.py'', [''helper.py'']) \<in> set (dependencies s)
     \<and> ''helper.py'' \<in> set [''helper.py'']
     \<and> ''helper.py'' \<in> fst ` set sample_files \<and> ''helper.py'' \<noteq> ''main.py''"
proof -
  from sample_run_Inr obtain s where
    r: "analyze_file_structure sample_lib sample_files = Inr s"
    and d: "(''main.py'', [''helper.py'']) \<in> set (dependencies s)" by auto
  have m: "''helper.py'' \<in> set [''helper.py'']" by simp
  from dependency_graph_edges [OF r d m] r d m show ?thesis by blast
qed













text \<open>
  Claim C9: on the empty mapping the analyzer returns no result, for
  \<^verbatim>\<open>analyze_directory_structure\<close> takes the maximum of an empty sequence of depths and
  raises \<^verbatim>\<open>ValueError\<close>; hence the analyzer returns a result only when the file set is
  not empty.
\<close>

theorem empty_file_set_raises:
  "analyze_file_structure L [] = Inl (ValueError ''max() arg is an empty sequence'')
   \<and> (\<forall>files s. analyze_file_structure L files = Inr s \<longrightarrow> files \<noteq> [])"
proof -
  have "analyze_file_structure L [] = Inl (ValueError ''max() arg is an empty sequence'')"
    by (simp add: analyze_file_structure_def analyze_directory_structure_def Let_def)
  then show ?thesis by auto
qed

text \<open>
  The analyzer returns a result on the sample files, which are not empty.
\<close>

theorem empty_file_set_raises_witness:
  "\<exists>s. analyze_file_structure sample_lib sample_files = Inr s \<and> sample_files \<noteq> []"
proof -
  from sample_run_Inr obtain s where
    r: "analyze_file_structure sample_lib sample_files = Inr s" by auto
  from empty_file_set_raises [of sample_lib] r have "sample_files \<noteq> []" by blast
  with r show ?thesis by blast
qed

text \<open>
  Claim C10: the entry-point list of the analyzer holds each file path at most once,
  also when a file meets several of the conditions.
\<close>

theorem entry_points_distinct:
  assumes "analyze_file_structure L files = Inr s"
  shows "distinct (entry_points s)"
proof -
  from analyze_file_structure_Inr [OF assms] obtain s0 :: structural_facts where
    s0: "analyze_files L files initial_structure = Inr s0"
    and e: "entry_points s = entry_loop (file_info s0) []" by blast
  have "distinct (map fst (file_info s0))"
    using analyze_files_distinct [OF s0] by (simp add: initial_structure_def)
  then have "distinct (entry_loop (file_info s0) [])"
    using entry_loop_distinct [of "[]" "file_info s0"] by simp
  with e show ?thesis by simp
qed

text \<open>
  The theorem on the sample files: \<^verbatim>\<open>helper.py\<close> defines \<^verbatim>\<open>main\<close>, and \<^verbatim>\<open>main.py\<close> has a
  canonical entry name.
\<close>

theorem entry_points_distinct_witness:
  "\<exists>s. analyze_file_structure sample_lib sample_files = Inr s
     \<and> entry_points s = [''main.py'', ''helper.py''] \<and> distinct (entry_points s)"
proof -
  from sample_run_Inr obtain s where
    r: "analyze_file_structure sample_lib sample_files = Inr s"
    and e: "entry_points s = [''main.py'', ''helper.py'']" by auto
  from entry_points_distinct [OF r] r e show ?thesis by blast
qed


section \<open>Properties of the core-module ranking\<close>

lemma sorted_reverse_descending: "sorted_wrt (\<lambda>a b. f a \<ge> f b) (sorted_reverse f xs)"
proof -
  have "sorted (map f (sort_key f (rev xs)))" by (rule sorted_sort_key)
  then have "sorted_wrt (\<lambda>a b. f a \<le> f b) (sort_key f (rev xs))"
    by (simp add: sorted_map)
  then show ?thesis
    by (simp add: sorted_reverse_def sorted_wrt_rev)
qed

lemma sorted_reverse_stable:
  "filter (\<lambda>y. f y = k) (sorted_reverse f xs) = filter (\<lambda>y. f y = k) xs"
proof -
  have "filter (\<lambda>y. f y = k) (sort_key f (rev xs)) = filter (\<lambda>y. f y = k) (rev xs)"
    by (rule sort_key_stable)
  then have "rev (filter (\<lambda>y. f y = k) (sort_key f (rev xs))) = filter (\<lambda>y. f y = k) xs"
    by (simp add: rev_filter)
  then show ?thesis by (simp add: sorted_reverse_def rev_filter)
qed

lemma set_sorted_reverse: "set (sorted_reverse f xs) = set xs"
  by (simp add: sorted_reverse_def)

text \<open>The count a counter holds for a key, zero for an absent key.\<close>

lemma map_of_counter_incr:
  "map_of (counter_incr k d) =
     (map_of d)(k \<mapsto> (case map_of d k of None \<Rightarrow> 1 | Some c \<Rightarrow> c + 1))"
  by (simp add: counter_incr_def update_conv')

lemma distinct_keys_counter_incr:
  "distinct (map fst d) \<Longrightarrow> distinct (map fst (counter_incr k d))"
  by (simp add: counter_incr_def distinct_update)

lemma distinct_keys_fold_counter_incr:
  "distinct (map fst d) \<Longrightarrow> distinct (map fst (fold counter_incr xs d))"
  by (induction xs arbitrary: d) (simp_all add: distinct_keys_counter_incr)

lemma map_of_fold_counter_incr:
  "map_of (fold counter_incr xs d) f = Some n \<Longrightarrow>
   n = (case map_of d f of None \<Rightarrow> 0 | Some c \<Rightarrow> c) + count_list xs f"
proof (induction xs arbitrary: d)
  case Nil
  then show ?case by simp
next
  case (Cons x xs)
  from Cons.IH [of "counter_incr x d"] Cons.prems
  show ?case by (auto simp: map_of_counter_incr split: option.splits)
qed

lemma dependents_of_visited:
  "dependents_of L deps = fold counter_incr (visited L deps) []"
proof -
  have "fold (\<lambda>(file_path, ds) dependents. fold counter_incr (set_iter L ds) dependents) deps d =
      fold counter_incr (concat (map (\<lambda>(file_path, ds). set_iter L ds) deps)) d" for d
    by (induction deps arbitrary: d) auto
  then show ?thesis by (simp add: dependents_of_def visited_def)
qed

lemma distinct_keys_dependents: "distinct (map fst (dependents_of L deps))"
  unfolding dependents_of_visited by (rule distinct_keys_fold_counter_incr) simp

lemma dependents_of_count:
  assumes "(f, n) \<in> set (dependents_of L deps)"
  shows "n = count_list (visited L deps) f"
proof -
  from assms distinct_keys_dependents have "map_of (dependents_of L deps) f = Some n" by simp
  then show ?thesis
    unfolding dependents_of_visited
    using map_of_fold_counter_incr [of "visited L deps" "[]" f n] by simp
qed

text \<open>The keys of the dictionary are the targets visited, in the order of their first
  occurrence.\<close>

lemma keys_counter_incr:
  "map fst (counter_incr k d) = (if k \<in> set (map fst d) then map fst d else map fst d @ [k])"
  by (simp add: counter_incr_def update_keys)

lemma keys_fold_counter_incr: "set (map fst (fold counter_incr xs [])) = set xs"
  by (induction xs rule: rev_induct) (auto simp: keys_counter_incr)

lemma first_seen_less: "x \<in> set xs \<Longrightarrow> first_seen xs x < length xs"
  unfolding first_seen_def
  by (induction xs) auto

lemma first_seen_append: "x \<in> set xs \<Longrightarrow> first_seen (xs @ ys) x = first_seen xs x"
  by (simp add: first_seen_def)

lemma first_seen_new: "x \<notin> set xs \<Longrightarrow> first_seen (xs @ [x]) x = length xs"
proof -
  assume "x \<notin> set xs"
  then have "takeWhile (\<lambda>y. y \<noteq> x) (xs @ [x]) = xs" by (induction xs) auto
  then show ?thesis by (simp add: first_seen_def)
qed

lemma keys_in_first_seen_order:
  "sorted_wrt (\<lambda>a b. first_seen xs a < first_seen xs b) (map fst (fold counter_incr xs []))"
proof (induction xs rule: rev_induct)
  case Nil
  then show ?case by simp
next
  case (snoc x xs)
  let ?K = "map fst (fold counter_incr xs [])"
  have K: "set ?K = set xs" by (rule keys_fold_counter_incr)
  have same: "first_seen (xs @ [x]) a = first_seen xs a" if "a \<in> set ?K" for a
    using that unfolding K by (rule first_seen_append)
  have old: "sorted_wrt (\<lambda>a b. first_seen (xs @ [x]) a < first_seen (xs @ [x]) b) ?K"
    using snoc.IH
    by (rule sorted_wrt_mono_rel [rotated]) (simp only: same)
  have step: "map fst (fold counter_incr (xs @ [x]) [])
      = (if x \<in> set xs then ?K else ?K @ [x])"
    using K by (simp add: keys_counter_incr del: set_map)
  show ?case
  proof (cases "x \<in> set xs")
    case True
    with old show ?thesis unfolding step by simp
  next
    case False
    have "first_seen (xs @ [x]) a < first_seen (xs @ [x]) x" if "a \<in> set xs" for a
      using that False by (simp add: first_seen_append first_seen_new first_seen_less)
    then have "\<forall>a\<in>set ?K. first_seen (xs @ [x]) a < first_seen (xs @ [x]) x"
      unfolding K by blast
    with old False show ?thesis
      unfolding step by (simp add: sorted_wrt_append del: set_map)
  qed
qed

lemma dependents_in_first_seen_order:
  "sorted_wrt (\<lambda>a b. first_seen (visited L deps) (fst a) < first_seen (visited L deps) (fst b))
     (dependents_of L deps)"
  using keys_in_first_seen_order [of "visited L deps"]
  by (simp add: dependents_of_visited sorted_wrt_map)

text \<open>Two elements that pass a filter stand in the relation in which the filtered list
  is sorted.\<close>

lemma sorted_wrt_filter_nth:
  "sorted_wrt R (filter Q xs) \<Longrightarrow> i < j \<Longrightarrow> j < length xs \<Longrightarrow> Q (xs ! i) \<Longrightarrow> Q (xs ! j)
   \<Longrightarrow> R (xs ! i) (xs ! j)"
proof (induction xs arbitrary: i j)
  case Nil
  then show ?case by simp
next
  case (Cons x xs)
  show ?case
  proof (cases i)
    case 0
    with Cons.prems obtain j' where j: "j = Suc j'" "j' < length xs" by (cases j) auto
    with Cons.prems have "xs ! j' \<in> set (filter Q xs)" by simp
    with Cons.prems 0 j show ?thesis by simp
  next
    case (Suc i')
    with Cons.prems obtain j' where j: "j = Suc j'" "j' < length xs" "i' < j'" by (cases j) auto
    from Cons.prems(1) have "sorted_wrt R (filter Q xs)" by (simp split: if_splits)
    from Cons.IH [OF this j(3) j(2)] Cons.prems Suc j show ?thesis by simp
  qed
qed

lemma ties_in_first_seen_order:
  assumes "i < j" and "j < length (identify_core_modules L deps)"
    and "snd (identify_core_modules L deps ! i) = snd (identify_core_modules L deps ! j)"
  shows "first_seen (visited L deps) (fst (identify_core_modules L deps ! i))
     < first_seen (visited L deps) (fst (identify_core_modules L deps ! j))"
proof -
  let ?S = "sorted_reverse snd (dependents_of L deps)"
  let ?R = "\<lambda>a b. first_seen (visited L deps) (fst a) < first_seen (visited L deps) (fst b)"
  let ?c = "snd (?S ! j)"
  have i: "identify_core_modules L deps ! i = ?S ! i"
    using assms(1,2) by (simp add: identify_core_modules_def)
  have j: "identify_core_modules L deps ! j = ?S ! j"
    using assms(2) by (simp add: identify_core_modules_def)
  have l: "j < length ?S"
    using assms(2) by (simp add: identify_core_modules_def)
  have qi: "snd (?S ! i) = ?c"
    using assms(3) unfolding i j .
  have "sorted_wrt ?R (filter (\<lambda>e. snd e = ?c) (dependents_of L deps))"
    using dependents_in_first_seen_order by (rule sorted_wrt_filter)
  then have sw: "sorted_wrt ?R (filter (\<lambda>e. snd e = ?c) ?S)"
    by (simp only: sorted_reverse_stable)
  have "?R (?S ! i) (?S ! j)"
    using sorted_wrt_filter_nth [of ?R "\<lambda>e. snd e = ?c" ?S i j] sw assms(1) l qi by blast
  then show ?thesis unfolding i j .
qed

lemma count_list_distinct: "distinct xs \<Longrightarrow> count_list xs f = (if f \<in> set xs then 1 else 0)"
  by (induction xs) auto

lemma count_list_concat:
  "\<forall>xs\<in>set xss. distinct xs \<Longrightarrow>
   count_list (concat xss) f = length (filter (\<lambda>xs. f \<in> set xs) xss)"
  by (induction xss) (auto simp: count_list_distinct)

lemma count_dependents:
  assumes "distinct (map fst deps)" and "\<forall>(A, ds)\<in>set deps. distinct ds"
  shows "count_list (visited L deps) f =
     length (filter (\<lambda>A. f \<in> set (dd_get deps A)) (map fst deps))"
proof -
  let ?it = "map (\<lambda>(file_path, ds). set_iter L ds) deps"
  from assms(2) have "\<forall>xs\<in>set ?it. distinct xs" by (auto simp: distinct_set_iter)
  then have "count_list (concat ?it) f = length (filter (\<lambda>xs. f \<in> set xs) ?it)"
    by (rule count_list_concat)
  also have "\<dots> = length (filter (\<lambda>e. f \<in> set (snd e)) deps)"
    by (simp add: filter_map comp_def case_prod_beta set_set_iter)
  also have "filter (\<lambda>e. f \<in> set (snd e)) deps
      = filter (\<lambda>e. f \<in> set (dd_get deps (fst e))) deps"
  proof (rule filter_cong [OF refl])
    fix e assume "e \<in> set deps"
    then have "(fst e, snd e) \<in> set deps" by simp
    from dd_get_distinct_keys [OF assms(1) this]
    show "(f \<in> set (snd e)) = (f \<in> set (dd_get deps (fst e)))" by simp
  qed
  also have "length \<dots> = length (filter (\<lambda>A. f \<in> set (dd_get deps A)) (map fst deps))"
    by (simp add: filter_map comp_def)
  finally show ?thesis by (simp add: visited_def)
qed

text \<open>
  Claim C3: for every dependency graph and every order in which Python iterates its sets,
  the core-module ranking has at most 10 entries and is sorted by non-increasing count; of
  two entries of equal count, the one that stands first is the one that the loops saw
  first; and the count of an entry is the number of times the loops met it, which for a
  dictionary of sets, as the analyzer builds it, is the number of files that hold an edge
  into it.
\<close>

theorem core_modules_ranking:
  "length (identify_core_modules L deps) \<le> 10
   \<and> sorted_wrt (\<lambda>a b. snd a \<ge> snd b) (identify_core_modules L deps)
   \<and> (\<forall>i j. i < j \<and> j < length (identify_core_modules L deps)
         \<and> snd (identify_core_modules L deps ! i) = snd (identify_core_modules L deps ! j)
        \<longrightarrow> first_seen (visited L deps) (fst (identify_core_modules L deps ! i))
             < first_seen (visited L deps) (fst (identify_core_modules L deps ! j)))
   \<and> (\<forall>(f, n)\<in>set (identify_core_modules L deps). n = count_list (visited L deps) f)
   \<and> (distinct (map fst deps) \<and> (\<forall>(A, ds)\<in>set deps. distinct ds) \<longrightarrow>
       (\<forall>(f, n)\<in>set (identify_core_modules L deps).
          n = length (filter (\<lambda>A. f \<in> set (dd_get deps A)) (map fst deps))))"
proof -
  have cnt: "n = count_list (visited L deps) f"
    if "(f, n) \<in> set (identify_core_modules L deps)" for f n
  proof -
    from that have "(f, n) \<in> set (sorted_reverse snd (dependents_of L deps))"
      unfolding identify_core_modules_def by (rule in_set_takeD)
    then have "(f, n) \<in> set (dependents_of L deps)" by (simp add: set_sorted_reverse)
    then show ?thesis by (rule dependents_of_count)
  qed
  have 1: "length (identify_core_modules L deps) \<le> 10"
    by (simp add: identify_core_modules_def)
  have 2: "sorted_wrt (\<lambda>a b. snd a \<ge> snd b) (identify_core_modules L deps)"
    unfolding identify_core_modules_def
    by (rule sorted_wrt_take) (rule sorted_reverse_descending)
  have 3: "\<forall>i j. i < j \<and> j < length (identify_core_modules L deps)
         \<and> snd (identify_core_modules L deps ! i) = snd (identify_core_modules L deps ! j)
        \<longrightarrow> first_seen (visited L deps) (fst (identify_core_modules L deps ! i))
             < first_seen (visited L deps) (fst (identify_core_modules L deps ! j))"
    using ties_in_first_seen_order by blast
  have 4: "\<forall>(f, n)\<in>set (identify_core_modules L deps). n = count_list (visited L deps) f"
    using cnt by blast
  have 5: "distinct (map fst deps) \<and> (\<forall>(A, ds)\<in>set deps. distinct ds) \<longrightarrow>
       (\<forall>(f, n)\<in>set (identify_core_modules L deps).
          n = length (filter (\<lambda>A. f \<in> set (dd_get deps A)) (map fst deps)))"
    using cnt count_dependents [of deps L] by fastforce
  from 1 2 3 4 5 show ?thesis by blast
qed

lemma sample_graph_ranking:
  "identify_core_modules sample_lib sample_graph = [(''x'', 3), (''y'', 2), (''w'', 1), (''z'', 1)]
   \<and> visited sample_lib sample_graph = [''x'', ''w'', ''y'', ''x'', ''z'', ''y'', ''x'']"
  by code_simp

text \<open>
  The theorem on the sample graph: \<^verbatim>\<open>w\<close> and \<^verbatim>\<open>z\<close> have one dependent each, \<^verbatim>\<open>w\<close> is
  seen before \<^verbatim>\<open>z\<close> and stands before it, behind \<^verbatim>\<open>x\<close> and \<^verbatim>\<open>y\<close>.
\<close>

theorem core_modules_ranking_witness:
  "identify_core_modules sample_lib sample_graph = [(''x'', 3), (''y'', 2), (''w'', 1), (''z'', 1)]
   \<and> visited sample_lib sample_graph = [''x'', ''w'', ''y'', ''x'', ''z'', ''y'', ''x'']
   \<and> length (identify_core_modules sample_lib sample_graph) \<le> 10
   \<and> sorted_wrt (\<lambda>a b. snd a \<ge> snd b) (identify_core_modules sample_lib sample_graph)
   \<and> first_seen (visited sample_lib sample_graph) ''w'' < first_seen (visited sample_lib sample_graph) ''z''
   \<and> count_list (visited sample_lib sample_graph) ''x'' = 3
   \<and> length (filter (\<lambda>A. ''x'' \<in> set (dd_get sample_graph A)) (map fst sample_graph)) = 3"
proof -
  have wf: "distinct (map fst sample_graph) \<and> (\<forall>(A, ds)\<in>set sample_graph. distinct ds)"
    by (simp add: sample_graph_def)
  have r: "identify_core_modules sample_lib sample_graph
      = [(''x'', 3), (''y'', 2), (''w'', 1), (''z'', 1)]"
    and v: "visited sample_lib sample_graph = [''x'', ''w'', ''y'', ''x'', ''z'', ''y'', ''x'']"
    using sample_graph_ranking by simp_all
  from r have m: "(''x'', 3) \<in> set (identify_core_modules sample_lib sample_graph)" by simp
  note t = core_modules_ranking [of sample_lib sample_graph]
  from t have "2 < (3::nat) \<and> 3 < length (identify_core_modules sample_lib sample_graph)
         \<and> snd (identify_core_modules sample_lib sample_graph ! 2)
           = snd (identify_core_modules sample_lib sample_graph ! 3)
        \<longrightarrow> first_seen (visited sample_lib sample_graph)
               (fst (identify_core_modules sample_lib sample_graph ! 2))
             < first_seen (visited sample_lib sample_graph)
               (fst (identify_core_modules sample_lib sample_graph ! 3))"
    by blast
  then have a: "first_seen (visited sample_lib sample_graph) ''w''
      < first_seen (visited sample_lib sample_graph) ''z''"
    unfolding r by simp
  from t m have b: "count_list (visited sample_lib sample_graph) ''x'' = 3" by fastforce
  from t wf have "\<forall>(f, n)\<in>set (identify_core_modules sample_lib sample_graph).
      n = length (filter (\<lambda>A. f \<in> set (dd_get sample_graph A)) (map fst sample_graph))"
    by blast
  with m have c: "length (filter (\<lambda>A. ''x'' \<in> set (dd_get sample_graph A)) (map fst sample_graph)) = 3"
    by fastforce
  from t r v a b c show ?thesis by blast
qed

section \<open>Properties of the per-file extraction\<close>

text \<open>The per-file extraction returns for every file that is no Python file, and for a
  Python file that the parser accepts or rejects by \<^verbatim>\<open>SyntaxError\<close>; any other exception
  of the parser leaves the extraction.\<close>

lemma python_syntax_error_falls_back:
  assumes "detect_language file_path = ''python''" and "ast_parse L content = Inl SyntaxError"
  shows "\<exists>info. analyze_single_file L file_path content = Inr info"
  using assms by (simp add: analyze_single_file_def analyze_python_file_def Let_def)

lemma python_parsed:
  assumes "detect_language file_path = ''python''" and "ast_parse L content = Inr nodes"
  shows "\<exists>info. analyze_single_file L file_path content = Inr info"
  using assms by (simp add: analyze_single_file_def analyze_python_file_def Let_def)

lemma other_language_returns:
  assumes "detect_language file_path \<noteq> ''python''"
  shows "\<exists>info. analyze_single_file L file_path content = Inr info"
  using assms by (simp add: analyze_single_file_def Let_def)

lemma python_other_error_propagates:
  assumes "detect_language file_path = ''python''" and "ast_parse L content = Inl e"
    and "e \<noteq> SyntaxError"
  shows "analyze_single_file L file_path content = Inl e"
  using assms
  by (cases e) (simp_all add: analyze_single_file_def analyze_python_file_def Let_def)

lemma detect_language_a_py: "detect_language ''a.py'' = ''python''"
  by code_simp

text \<open>
  Claim C5 fails on the code. With a parser that rejects a source holding a NUL
  character by \<^verbatim>\<open>ValueError\<close>, as \<^verbatim>\<open>ast.parse\<close> of CPython up to 3.11 does, the
  extraction of the Python file \<^verbatim>\<open>a.py\<close> with such a source raises that exception
  instead of taking the regex path, and so does the analyzer on the file set of this
  file: only \<^verbatim>\<open>SyntaxError\<close> is caught.
\<close>

theorem parse_failure_propagates:
  "analyze_single_file
     (L\<lparr>ast_parse := \<lambda>c. if CHR 0x00 \<in> set c
                          then Inl (ValueError ''source code string cannot contain null bytes'')
                          else ast_parse L c\<rparr>)
     ''a.py'' [CHR 0x00]
   = Inl (ValueError ''source code string cannot contain null bytes'')
   \<and> analyze_file_structure
     (L\<lparr>ast_parse := \<lambda>c. if CHR 0x00 \<in> set c
                          then Inl (ValueError ''source code string cannot contain null bytes'')
                          else ast_parse L c\<rparr>)
     [(''a.py'', [CHR 0x00])]
   = Inl (ValueError ''source code string cannot contain null bytes'')"
proof -
  let ?L = "L\<lparr>ast_parse := \<lambda>c. if CHR 0x00 \<in> set c
                          then Inl (ValueError ''source code string cannot contain null bytes'')
                          else ast_parse L c\<rparr>"
  have "analyze_single_file ?L ''a.py'' [CHR 0x00]
      = Inl (ValueError ''source code string cannot contain null bytes'')"
    by (rule python_other_error_propagates [OF detect_language_a_py]) simp_all
  then show ?thesis by (simp add: analyze_file_structure_def)
qed

section \<open>Properties of the cache argument\<close>

text \<open>The two stages that pass the argument disable the cache from the second
  attempt on.\<close>

lemma cache_bypass_on_retry:
  assumes "st = AnalyzeStructure \<or> st = IdentifyCore" and "0 < cur_retry"
  shows "cache_allowed dflt (call_llm_use_cache st use_cache cur_retry) = False"
  using assms by (auto simp: cache_allowed_def)

text \<open>
  Claim C6 fails on the code. The ordering stage passes no cache argument, so the flag
  of its reasoning call is the adapter's default on every attempt, whatever the toggle
  and the attempt counter: with an adapter that allows caching by default, a retry is
  made with caching allowed. The stages \<^verbatim>\<open>IdentifyAbstractions\<close>, \<^verbatim>\<open>AnalyzeRelationships\<close>,
  \<^verbatim>\<open>WriteProjectOverview\<close> and \<^verbatim>\<open>WriteChapters\<close> do the same.
\<close>

theorem ordering_retry_cache_default:
  "cache_allowed dflt (call_llm_use_cache OrderChapters use_cache cur_retry) = dflt"
  by (simp add: cache_allowed_def)

section \<open>Properties of the fetch stage\<close>

lemma FetchRepo_prep_shared:
  assumes "FetchRepo_prep P sh = (r, sh1)"
  shows "(\<forall>k. k \<noteq> ''project_name'' \<longrightarrow> sh1 k = sh k)
     \<and> (truthy (shared_get sh ''project_name'') \<longrightarrow> sh1 = sh)"
  using assms by (auto simp: FetchRepo_prep_def Let_def split: if_splits sum.splits)

text \<open>
  Claim C7, amended: if the source provider returns zero files, the fetch stage raises
  the failure \<^verbatim>\<open>ValueError("Failed to fetch files")\<close> and the run ends there with the
  context as \<^verbatim>\<open>prep\<close> has left it: no \<^verbatim>\<open>files\<close> value is committed, no key other than
  \<^verbatim>\<open>project_name\<close> has changed, and nothing at all has changed when the context held a
  project name.
\<close>

theorem fetch_zero_files:
  assumes "FetchRepo_prep P sh = (Inr p, sh1)"
    and "crawl P p = Inr result" and "files_list_of result = Inr []"
  shows "FetchRepo_run P sh = (Inl (ValueError ''Failed to fetch files''), sh1)
     \<and> sh1 ''files'' = sh ''files''
     \<and> (\<forall>k. k \<noteq> ''project_name'' \<longrightarrow> sh1 k = sh k)
     \<and> (truthy (shared_get sh ''project_name'') \<longrightarrow> sh1 = sh)"
proof -
  have "FetchRepo_exec P p = Inl (ValueError ''Failed to fetch files'')"
    using assms(2,3) by (simp add: FetchRepo_exec_def)
  then have "FetchRepo_run P sh = (Inl (ValueError ''Failed to fetch files''), sh1)"
    using assms(1) by (simp add: FetchRepo_run_def)
  moreover have "sh1 ''files'' = sh ''files''"
    using FetchRepo_prep_shared [OF assms(1)] by simp
  ultimately show ?thesis using FetchRepo_prep_shared [OF assms(1)] by blast
qed

text \<open>
  Claim C7, as stated, fails: for a context that names a repository and no project,
  \<^verbatim>\<open>prep\<close> has committed the derived \<^verbatim>\<open>project_name\<close> to the shared context before the
  stage raises.
\<close>

theorem fetch_zero_files_counterexample:
  "fst (FetchRepo_run empty_provider sample_shared) = Inl (ValueError ''Failed to fetch files'')
   \<and> sample_shared ''project_name'' = None
   \<and> snd (FetchRepo_run empty_provider sample_shared) ''project_name'' = Some (PStr ''r'')"
  by (simp add: FetchRepo_run_def FetchRepo_prep_def FetchRepo_exec_def sample_shared_def
      empty_provider_def shared_get_def derive_project_name_def read_patterns_def
      shared_item_def crawl_def files_list_of_def dict_get_def Let_def)


lemma empty_provider_crawl:
  "crawl empty_provider p = Inr [(PStr ''files'', PDict [])]
   \<and> files_list_of [(PStr ''files'', PDict [])] = Inr []"
  by (simp add: crawl_def empty_provider_def files_list_of_def dict_get_def)

text \<open>
  The theorem on the sample context, without a project name and with one.
\<close>

theorem fetch_zero_files_witness:
  "(\<exists>p sh1. FetchRepo_prep empty_provider sample_shared = (Inr p, sh1)
      \<and> FetchRepo_run empty_provider sample_shared
          = (Inl (ValueError ''Failed to fetch files''), sh1)
      \<and> sh1 ''files'' = None \<and> sh1 ''project_name'' = Some (PStr ''r''))
   \<and> truthy (shared_get (sample_shared(''project_name'' \<mapsto> PStr ''demo'')) ''project_name'')
   \<and> FetchRepo_run empty_provider (sample_shared(''project_name'' \<mapsto> PStr ''demo''))
        = (Inl (ValueError ''Failed to fetch files''),
           sample_shared(''project_name'' \<mapsto> PStr ''demo''))"
proof -
  let ?sh = "sample_shared(''project_name'' \<mapsto> PStr ''demo'')"
  have "\<exists>p. FetchRepo_prep empty_provider sample_shared
      = (Inr p, sample_shared(''project_name'' \<mapsto> PStr ''r''))"
    by (simp add: FetchRepo_prep_def sample_shared_def empty_provider_def shared_get_def
        derive_project_name_def read_patterns_def shared_item_def Let_def)
  then obtain p where
    h: "FetchRepo_prep empty_provider sample_shared
      = (Inr p, sample_shared(''project_name'' \<mapsto> PStr ''r''))" ..
  have n: "sample_shared ''files'' = None" by (simp add: sample_shared_def)
  from empty_provider_crawl [of p] have c: "crawl empty_provider p = Inr [(PStr ''files'', PDict [])]"
    and f: "files_list_of [(PStr ''files'', PDict [])] = Inr []" by simp_all
  from fetch_zero_files [OF h c f] h n
  have 1: "\<exists>p sh1. FetchRepo_prep empty_provider sample_shared = (Inr p, sh1)
      \<and> FetchRepo_run empty_provider sample_shared
          = (Inl (ValueError ''Failed to fetch files''), sh1)
      \<and> sh1 ''files'' = None \<and> sh1 ''project_name'' = Some (PStr ''r'')" by auto
  have t: "truthy (shared_get ?sh ''project_name'')" by (simp add: shared_get_def)
  have "\<exists>q. FetchRepo_prep empty_provider ?sh = (Inr q, ?sh)"
    by (simp add: FetchRepo_prep_def sample_shared_def shared_get_def
        read_patterns_def shared_item_def Let_def)
  then obtain q where h3: "FetchRepo_prep empty_provider ?sh = (Inr q, ?sh)" ..
  from empty_provider_crawl [of q] have c2: "crawl empty_provider q = Inr [(PStr ''files'', PDict [])]"
    by simp
  from fetch_zero_files [OF h3 c2 f] t
  have 2: "FetchRepo_run empty_provider ?sh = (Inl (ValueError ''Failed to fetch files''), ?sh)"
    by simp
  from 1 t 2 show ?thesis by blast
qed


end
